theory Spec2Isabelle
  imports Complex_Main "HOL-Library.Sublist"
begin

section \<open>JavaScript values used by the analyzer\<close>

text \<open>
  A JavaScript string is modelled as a \<^typ>\<open>string\<close>: one character per code unit, for
  code units below 256. A value that may be \<open>null\<close> or \<open>undefined\<close> is an
  \<^typ>\<open>'a option\<close>. A thrown value is a \<open>thrown\<close>; a computation that may throw
  returns \<open>thrown + 'a\<close>, with \<open>Inl\<close> for the exception.
\<close>

datatype thrown = Error (message: string) | Thrown_value

text \<open>\<^verbatim>\<open>error instanceof Error ? error.message : 'Unknown error'\<close>\<close>

definition error_message :: "thrown \<Rightarrow> string" where
  "error_message e = (case e of Error m \<Rightarrow> m | Thrown_value \<Rightarrow> ''Unknown error'')"

text \<open>Truthiness of a string that may be null or undefined: present and not empty.\<close>

definition truthy :: "string option \<Rightarrow> bool" where
  "truthy v = (case v of None \<Rightarrow> False | Some s \<Rightarrow> s \<noteq> [])"

text \<open>\<^verbatim>\<open>v || null\<close> on such a value.\<close>

definition or_null :: "string option \<Rightarrow> string option" where
  "or_null v = (if truthy v then v else None)"

text \<open>
  A JavaScript value whose type is not known statically: what \<^verbatim>\<open>JSON.parse\<close> returns,
  \<open>undefined\<close>, and the numbers that are not finite. The keys of an object are distinct.
\<close>

datatype js_number = Finite rat | NaN | PosInfinity | NegInfinity

datatype js =
    JUndefined
  | JNull
  | JBool bool
  | JNumber js_number
  | JString string
  | JArray "js list"
  | JObject "(string \<times> js) list"

text \<open>Truthiness of such a value.\<close>

definition truthy_js :: "js \<Rightarrow> bool" where
  "truthy_js v =
     (case v of
        JUndefined \<Rightarrow> False
      | JNull \<Rightarrow> False
      | JBool b \<Rightarrow> b
      | JNumber n \<Rightarrow> n \<noteq> Finite 0 \<and> n \<noteq> NaN
      | JString s \<Rightarrow> s \<noteq> []
      | JArray xs \<Rightarrow> True
      | JObject kvs \<Rightarrow> True)"

text \<open>
  The messages of the \<open>TypeError\<close> that the engine throws when \<^verbatim>\<open>v.length\<close> is read on
  \<open>null\<close> or \<open>undefined\<close>, and when \<^verbatim>\<open>content.split\<close> is called but is not a function.
\<close>

definition length_of_null_message :: "string \<Rightarrow> string" where
  "length_of_null_message what =
     ''Cannot read properties of '' @ what @ '' (reading '' @ [CHR 0x27] @ ''length''
       @ [CHR 0x27] @ '')''"

definition split_not_a_function :: string where
  "split_not_a_function = ''content.split is not a function''"

text \<open>
  \<^verbatim>\<open>v.length\<close>: it throws on \<open>null\<close> and \<open>undefined\<close>, is the length of a string or an
  array, the property of that name of an object, and \<open>undefined\<close> on a boolean or a number.
\<close>

definition length_of :: "js \<Rightarrow> thrown + js" where
  "length_of v =
     (case v of
        JUndefined \<Rightarrow> Inl (Error (length_of_null_message ''undefined''))
      | JNull \<Rightarrow> Inl (Error (length_of_null_message ''null''))
      | JBool b \<Rightarrow> Inr JUndefined
      | JNumber n \<Rightarrow> Inr JUndefined
      | JString s \<Rightarrow> Inr (JNumber (Finite (of_nat (length s))))
      | JArray xs \<Rightarrow> Inr (JNumber (Finite (of_nat (length xs))))
      | JObject kvs \<Rightarrow>
          (case map_of kvs ''length'' of None \<Rightarrow> Inr JUndefined | Some x \<Rightarrow> Inr x))"

text \<open>\<^verbatim>\<open>s.startsWith(p)\<close>\<close>

definition startsWith :: "string \<Rightarrow> string \<Rightarrow> bool" where
  "startsWith s p = (take (length p) s = p)"

text \<open>\<^verbatim>\<open>s.includes(sub)\<close>; the bare name is a reserved word of the theory language.\<close>

fun includes_str :: "string \<Rightarrow> string \<Rightarrow> bool" where
  "includes_str [] sub = (sub = [])"
| "includes_str (c # cs) sub = (startsWith (c # cs) sub \<or> includes_str cs sub)"

text \<open>
  The white space that \<^verbatim>\<open>trim\<close> removes, among the code units below 256: tab, line feed,
  vertical tab, form feed, carriage return, space and no-break space.
\<close>

definition is_space :: "char \<Rightarrow> bool" where
  "is_space c = ((of_char c :: nat) \<in> {9, 10, 11, 12, 13, 32, 160})"

definition trim :: "string \<Rightarrow> string" where
  "trim s = rev (dropWhile is_space (rev (dropWhile is_space s)))"

text \<open>
  \<^verbatim>\<open>toLowerCase\<close> on code units below 256: the letters A to Z, and the accented capitals
  U+00C0 to U+00DE without the multiplication sign U+00D7, move up by 32.
\<close>

definition lower_char :: "char \<Rightarrow> char" where
  "lower_char c =
     (let n = (of_char c :: nat)
      in if (65 \<le> n \<and> n \<le> 90) \<or> (192 \<le> n \<and> n \<le> 222 \<and> n \<noteq> 215)
         then char_of (n + 32) else c)"

definition toLowerCase :: "string \<Rightarrow> string" where
  "toLowerCase s = map lower_char s"

text \<open>\<^verbatim>\<open>s.split(c)\<close> for a separator of one character: never the empty list.\<close>

fun split_char :: "char \<Rightarrow> string \<Rightarrow> string list" where
  "split_char c [] = [] # []"
| "split_char c (x # xs) =
     (if x = c then [] # split_char c xs
      else (case split_char c xs of
              [] \<Rightarrow> [x] # []
            | p # ps \<Rightarrow> (x # p) # ps))"

text \<open>\<^verbatim>\<open>parts.join(sep)\<close>\<close>

fun join :: "string \<Rightarrow> string list \<Rightarrow> string" where
  "join sep [] = []"
| "join sep [p] = p"
| "join sep (p # q # ps) = p @ sep @ join sep (q # ps)"

text \<open>A non-negative integer written in decimal, as a template literal prints it.\<close>

fun decimal :: "nat \<Rightarrow> string" where
  "decimal n =
     (if n < 10 then [char_of (48 + n)]
      else decimal (n div 10) @ [char_of (48 + n mod 10)])"

declare decimal.simps [simp del]

text \<open>
  \<^verbatim>\<open>Math.round\<close>: the nearest integer, a tie going up. The scorer applies it to
  \<^verbatim>\<open>(score / 70) * 100\<close> where \<open>score\<close> is a multiple of 5 between 0 and 70; the exact
  quotient is then at least 1/14 away from every tie, so the double-precision result
  rounds as the exact one does, and the model computes with rationals.
\<close>

definition Math_round :: "rat \<Rightarrow> int" where
  "Math_round x = \<lfloor>x + 1 / 2\<rfloor>"

section \<open>The fact bundles\<close>

text \<open>
  The objects of \<open>SEOAnalysisResult\<close> as records; the interface is declared in the shared
  schema module, and \<^verbatim>\<open>replit.md\<close> reproduces it. A field name belongs to one record only,
  so a name that several objects share carries a prefix: \<open>rt_\<close> in \<open>robotsTxt\<close>, \<open>b_\<close> in an
  entry of \<open>links.broken\<close>, \<open>e_\<close> in an entry of \<open>links.externalLinks\<close>, \<open>sd_\<close> in the
  argument of \<open>calculateScore\<close>, \<open>link_\<close> in an entry of \<open>allLinks\<close>, \<open>ls_\<close> in the result of
  \<open>checkLinkStatus\<close> and \<open>an_\<close> in the result of \<open>analyzeWebsite\<close>.
\<close>

text \<open>
  \<open>metaTags\<close> of \<open>SEOAnalysisResult\<close>. The field \<open>keywords\<close> is named \<open>keywordsTag\<close>
  here, the former being a reserved word of the theory language.
\<close>

record metaTags =
  title :: "string option"
  titleLength :: int
  description :: "string option"
  descriptionLength :: int
  keywordsTag :: "string option"
  keywordsLength :: int
  canonical :: "string option"
  canonicalMatches :: bool
  robots :: "string option"
  robotsValid :: bool
  htmlLang :: "string option"
  maxImagePreview :: bool

text \<open>An entry of \<open>robotsTxt.rules\<close>.\<close>

record rule =
  userAgent :: string
  directive :: string
  path :: string

text \<open>
  \<open>robotsTxt\<close> of \<open>SEOAnalysisResult\<close>. The content is what \<open>fetchRobotsTxt\<close> returned,
  whatever its type.
\<close>

record robotsTxt =
  rt_found :: bool
  rt_content :: js
  rt_rules :: "rule list"

text \<open>An entry of \<open>links.broken\<close> and an entry of \<open>links.externalLinks\<close>.\<close>

record brokenLink =
  b_url :: string
  b_text :: string
  b_status :: nat
  b_error :: "string option"

record externalLink =
  e_url :: string
  e_text :: string
  e_nofollow :: bool
  e_status :: nat

text \<open>\<open>links\<close> of \<open>SEOAnalysisResult\<close>.\<close>

record links =
  total :: int
  internal :: int
  external :: int
  broken :: "brokenLink list"
  externalLinks :: "externalLink list"

text \<open>
  What \<open>calculateScore\<close> reads of its argument: \<open>data.metaTags\<close>, \<open>data.schema.found\<close>,
  \<open>data.robotsTxt\<close>, \<open>data.links\<close> and \<open>data.breadcrumbs.found\<close>.
\<close>

record scoreData =
  sd_metaTags :: metaTags
  sd_schema_found :: bool
  sd_robotsTxt :: robotsTxt
  sd_links :: links
  sd_breadcrumbs_found :: bool

text \<open>The four counters of \<open>calculateScore\<close>, which are also what it returns.\<close>

record tally =
  score :: int
  issues :: int
  warnings :: int
  passed :: int

section \<open>calculateScore\<close>

text \<open>
  The body of \<open>calculateScore\<close> is nine blocks, each updating the counters. Each block is
  one function from the counters before it to the counters after it, in source order.
\<close>

text \<open>Title (10 points), lines 399 to 410.\<close>

definition score_title :: "scoreData \<Rightarrow> tally \<Rightarrow> tally" where
  "score_title data t =
     (if truthy (title (sd_metaTags data)) then
        (if titleLength (sd_metaTags data) \<ge> 50 \<and> titleLength (sd_metaTags data) \<le> 60
         then t\<lparr>score := score t + 10, passed := passed t + 1\<rparr>
         else t\<lparr>score := score t + 5, warnings := warnings t + 1\<rparr>)
      else t\<lparr>issues := issues t + 1\<rparr>)"

text \<open>Description (10 points), lines 412 to 423.\<close>

definition score_description :: "scoreData \<Rightarrow> tally \<Rightarrow> tally" where
  "score_description data t =
     (if truthy (description (sd_metaTags data)) then
        (if descriptionLength (sd_metaTags data) \<ge> 150
            \<and> descriptionLength (sd_metaTags data) \<le> 160
         then t\<lparr>score := score t + 10, passed := passed t + 1\<rparr>
         else t\<lparr>score := score t + 5, warnings := warnings t + 1\<rparr>)
      else t\<lparr>issues := issues t + 1\<rparr>)"

text \<open>Canonical (5 points), lines 425 to 435.\<close>

definition score_canonical :: "scoreData \<Rightarrow> tally \<Rightarrow> tally" where
  "score_canonical data t =
     (if truthy (canonical (sd_metaTags data)) then
        (if canonicalMatches (sd_metaTags data)
         then t\<lparr>score := score t + 5, passed := passed t + 1\<rparr>
         else t\<lparr>warnings := warnings t + 1\<rparr>)
      else t\<lparr>warnings := warnings t + 1\<rparr>)"

text \<open>Robots (5 points), lines 437 to 443.\<close>

definition score_robots :: "scoreData \<Rightarrow> tally \<Rightarrow> tally" where
  "score_robots data t =
     (if truthy (robots (sd_metaTags data)) \<and> robotsValid (sd_metaTags data)
      then t\<lparr>score := score t + 5, passed := passed t + 1\<rparr>
      else t\<lparr>warnings := warnings t + 1\<rparr>)"

text \<open>HTML lang (5 points), lines 445 to 451.\<close>

definition score_htmlLang :: "scoreData \<Rightarrow> tally \<Rightarrow> tally" where
  "score_htmlLang data t =
     (if truthy (htmlLang (sd_metaTags data))
      then t\<lparr>score := score t + 5, passed := passed t + 1\<rparr>
      else t\<lparr>warnings := warnings t + 1\<rparr>)"

text \<open>Schema (15 points), lines 453 to 459.\<close>

definition score_schema :: "scoreData \<Rightarrow> tally \<Rightarrow> tally" where
  "score_schema data t =
     (if sd_schema_found data
      then t\<lparr>score := score t + 15, passed := passed t + 1\<rparr>
      else t\<lparr>issues := issues t + 1\<rparr>)"

text \<open>Robots.txt (5 points), lines 461 to 467.\<close>

definition score_robotsTxt :: "scoreData \<Rightarrow> tally \<Rightarrow> tally" where
  "score_robotsTxt data t =
     (if rt_found (sd_robotsTxt data)
      then t\<lparr>score := score t + 5, passed := passed t + 1\<rparr>
      else t\<lparr>warnings := warnings t + 1\<rparr>)"

text \<open>Broken links (10 points), lines 469 to 475.\<close>

definition score_brokenLinks :: "scoreData \<Rightarrow> tally \<Rightarrow> tally" where
  "score_brokenLinks data t =
     (if length (broken (sd_links data)) = 0
      then t\<lparr>score := score t + 10, passed := passed t + 1\<rparr>
      else t\<lparr>issues := issues t + int (length (broken (sd_links data)))\<rparr>)"

text \<open>Breadcrumbs (5 points), lines 477 to 483.\<close>

definition score_breadcrumbs :: "scoreData \<Rightarrow> tally \<Rightarrow> tally" where
  "score_breadcrumbs data t =
     (if sd_breadcrumbs_found data
      then t\<lparr>score := score t + 5, passed := passed t + 1\<rparr>
      else t\<lparr>warnings := warnings t + 1\<rparr>)"

text \<open>The counters after the nine blocks, starting from zero.\<close>

definition rawScore :: "scoreData \<Rightarrow> tally" where
  "rawScore data =
     score_breadcrumbs data (score_brokenLinks data (score_robotsTxt data
       (score_schema data (score_htmlLang data (score_robots data
         (score_canonical data (score_description data (score_title data
           \<lparr>score = 0, issues = 0, warnings = 0, passed = 0\<rparr>))))))))"

text \<open>Lines 485 to 493: normalise to 100, clamp, return.\<close>

definition calculateScore :: "scoreData \<Rightarrow> tally" where
  "calculateScore data =
     (let t = rawScore data;
          normalizedScore = Math_round ((of_int (score t) / 70) * 100)
      in \<lparr>score = max 0 (min 100 normalizedScore),
          issues = issues t,
          warnings = warnings t,
          passed = passed t\<rparr>)"

text \<open>
  The points gained between two states of the counters: at most \<open>k\<close>, and a multiple
  of 5.
\<close>

definition points_within :: "tally \<Rightarrow> tally \<Rightarrow> int \<Rightarrow> bool" where
  "points_within t t' k =
     (score t \<le> score t' \<and> score t' \<le> score t + k \<and> 5 dvd (score t' - score t))"

section \<open>parseRobotsTxt\<close>

text \<open>
  The loop of \<open>parseRobotsTxt\<close> over the lines still to read, with \<open>currentUserAgent\<close>
  and the \<open>rules\<close> pushed so far. \<^verbatim>\<open>split\<close> never returns the empty array, so the
  first case of the destructuring is never taken; \<open>dir\<close> and \<open>pth\<close> are the source's
  \<open>directive\<close> and \<open>path\<close>.
\<close>

fun parseRobotsTxt_loop :: "string list \<Rightarrow> string \<Rightarrow> rule list \<Rightarrow> rule list" where
  "parseRobotsTxt_loop [] currentUserAgent rules = rules"
| "parseRobotsTxt_loop (line # lines) currentUserAgent rules =
     (let trimmed = trim line
      in if trimmed = [] \<or> startsWith trimmed ''#''
         then parseRobotsTxt_loop lines currentUserAgent rules
         else (case split_char CHR '':'' trimmed of
                 [] \<Rightarrow> parseRobotsTxt_loop lines currentUserAgent rules
               | dir # pathParts \<Rightarrow>
                   (let pth = trim (join '':'' pathParts)
                    in if toLowerCase dir = ''user-agent''
                       then parseRobotsTxt_loop lines pth rules
                       else if toLowerCase dir \<in> set [''allow'', ''disallow'', ''sitemap'']
                       then parseRobotsTxt_loop lines currentUserAgent
                              (rules @ [\<lparr>userAgent = currentUserAgent,
                                         directive = toLowerCase dir,
                                         path = pth\<rparr>])
                       else parseRobotsTxt_loop lines currentUserAgent rules)))"

definition parseRobotsTxt :: "string \<Rightarrow> rule list" where
  "parseRobotsTxt content =
     (if content = [] then []
      else parseRobotsTxt_loop (split_char (CHR 0x0A) content) ''*'' [])"

section \<open>The network and the clock\<close>

text \<open>
  A response as it arrives. \<open>body\<close> is the text of the response body, from which axios
  computes \<^verbatim>\<open>response.data\<close> (see \<open>response_data\<close> below). \<open>content_length\<close> is
  \<^verbatim>\<open>response.headers['content-length']\<close>, \<open>responseUrl\<close> is
  \<^verbatim>\<open>response.request.res?.responseUrl\<close>, and \<open>redirectCount\<close> is the number of redirects
  that axios followed to reach this response (at most \<^verbatim>\<open>maxRedirects\<close>); the analyzer
  never reads the latter.
\<close>

record response =
  status :: nat
  statusText :: string
  content_length :: "string option"
  body :: string
  responseUrl :: "string option"
  redirectCount :: nat

datatype request = GET string | HEAD string

text \<open>
  The world outside the analyzer: the requests sent so far, what the network answers to
  a request after those (a response, or a transport failure that axios throws), and what
  \<^verbatim>\<open>Date.now()\<close> reads after those.
\<close>

record world =
  requests :: "request list"
  respond :: "request list \<Rightarrow> request \<Rightarrow> thrown + response"
  clock :: "request list \<Rightarrow> int"

definition Date_now :: "world \<Rightarrow> int" where
  "Date_now w = clock w (requests w)"

text \<open>
  An axios call with its \<^verbatim>\<open>validateStatus\<close> option: the request is logged, a transport
  failure is thrown, and a response whose status the option rejects is thrown as an error.
\<close>

definition axios :: "(nat \<Rightarrow> bool) \<Rightarrow> request \<Rightarrow> world \<Rightarrow> (thrown + response) \<times> world" where
  "axios validateStatus rq w =
     (let w' = w\<lparr>requests := requests w @ [rq]\<rparr>
      in (case respond w (requests w) rq of
            Inl e \<Rightarrow> (Inl e, w')
          | Inr r \<Rightarrow>
              if validateStatus (status r) then (Inr r, w')
              else (Inl (Error (''Request failed with status code '' @ decimal (status r))), w')))"

text \<open>\<^verbatim>\<open>validateStatus: () => true\<close>, and the default of axios.\<close>

definition any_status :: "nat \<Rightarrow> bool" where
  "any_status s = True"

definition default_status :: "nat \<Rightarrow> bool" where
  "default_status s = (200 \<le> s \<and> s < 300)"

section \<open>The libraries\<close>

text \<open>The fields of a WHATWG \<open>URL\<close> object that the analyzer reads.\<close>

record URL =
  href :: string
  origin :: string
  pathname :: string
  search :: string
  hostname :: string

text \<open>An element of a parsed document: its attributes and its text content.\<close>

record element =
  attribs :: "(string \<times> string) list"
  innerText :: string

text \<open>
  The library functions, taken as parameters: \<open>load html\<close> is the cheerio query function
  of the parsed document, from a selector to the elements it matches in document order;
  \<open>new_URL input base\<close> is \<^verbatim>\<open>new URL(input, base)\<close>, which throws on an invalid URL;
  \<open>parseInt\<close> and \<open>JSON_parse\<close> are the built-ins, the latter throwing on a text that is not
  JSON; \<open>load_value\<close> is cheerio's \<^verbatim>\<open>load\<close> on a value that is not a string, where it
  throws or gives a document.
\<close>

record lib =
  load :: "string \<Rightarrow> string \<Rightarrow> element list"
  new_URL :: "string \<Rightarrow> string option \<Rightarrow> thrown + URL"
  parseInt :: "string \<Rightarrow> js_number"
  JSON_parse :: "string \<Rightarrow> thrown + js"
  load_value :: "js \<Rightarrow> thrown + (string \<Rightarrow> element list)"

text \<open>
  \<^verbatim>\<open>response.data\<close>. The requests of the analyzer set neither \<^verbatim>\<open>responseType\<close> nor
  \<^verbatim>\<open>transformResponse\<close>, so axios decodes a body that is not empty and parses as JSON,
  and hands over the text of any other body.
\<close>

definition response_data :: "lib \<Rightarrow> response \<Rightarrow> js" where
  "response_data L r =
     (if body r = [] then JString []
      else (case JSON_parse L (body r) of
              Inl e \<Rightarrow> JString (body r)
            | Inr v \<Rightarrow> v))"

text \<open>\<^verbatim>\<open>selection.attr(name)\<close>: the attribute of the first matched element.\<close>

definition attr :: "element list \<Rightarrow> string \<Rightarrow> string option" where
  "attr selection name =
     (case selection of [] \<Rightarrow> None | e # _ \<Rightarrow> map_of (attribs e) name)"

text \<open>\<^verbatim>\<open>selection.text()\<close>: the texts of all matched elements, concatenated.\<close>

definition text_of :: "element list \<Rightarrow> string" where
  "text_of selection = concat (map innerText selection)"

text \<open>\<^verbatim>\<open>v?.trim() || null\<close>\<close>

definition trimmed_or_null :: "string option \<Rightarrow> string option" where
  "trimmed_or_null v = or_null (map_option trim v)"

text \<open>The selectors and attribute names that the modelled functions use.\<close>

definition sel_html :: string where
  "sel_html = ''html''"

definition sel_title :: string where
  "sel_title = ''title''"

definition sel_anchor :: string where
  "sel_anchor = ''a[href]''"

definition sel_canonical :: string where
  \<open>sel_canonical = ''link[rel="canonical"]''\<close>

definition sel_amphtml :: string where
  \<open>sel_amphtml = ''link[rel="amphtml"]''\<close>

definition sel_description :: string where
  \<open>sel_description = ''meta[name="description"]''\<close>

definition sel_keywords :: string where
  \<open>sel_keywords = ''meta[name="keywords"]''\<close>

definition sel_robots :: string where
  \<open>sel_robots = ''meta[name="robots"]''\<close>

text \<open>
  The attribute name that is the high voltage sign U+26A1. It has no character of its
  own here and is written as its three UTF-8 bytes; it only serves as a lookup key.
\<close>

definition bolt :: string where
  "bolt = [CHR 0xE2, CHR 0x9A, CHR 0xA1]"

section \<open>fetchPage\<close>

record performance =
  loadTime :: int
  responseTime :: int
  redirects :: nat
  ssl :: bool
  pageSize :: js

record fetchOutcome =
  html :: js
  performance :: performance

text \<open>
  Line 62, \<open>contentLength\<close>: the header parsed when there is one that is not empty, else
  \<^verbatim>\<open>response.data.length\<close>, which throws when the data is \<open>null\<close>.
\<close>

definition contentLength_of :: "lib \<Rightarrow> response \<Rightarrow> thrown + js" where
  "contentLength_of L response =
     (case content_length response of
        None \<Rightarrow> length_of (response_data L response)
      | Some h \<Rightarrow>
          if h \<noteq> [] then Inr (JNumber (parseInt L h))
          else length_of (response_data L response))"

text \<open>
  Lines 51 to 77, the \<^verbatim>\<open>try\<close> block once axios has answered at the clock reading
  \<open>endTime\<close>: a thrown failure passes through, then line 62 may throw, then a status of
  400 or more is thrown as an error, and anything else is returned with
  \<^verbatim>\<open>response.data\<close> as its html.
\<close>

definition fetchPage_try ::
  "lib \<Rightarrow> string \<Rightarrow> int \<Rightarrow> int \<Rightarrow> thrown + response \<Rightarrow> thrown + fetchOutcome" where
  "fetchPage_try L url startTime endTime reply =
     (case reply of
        Inl e \<Rightarrow> Inl e
      | Inr response \<Rightarrow>
          (let loadTime' = endTime - startTime
           in (case contentLength_of L response of
                 Inl e \<Rightarrow> Inl e
               | Inr contentLength \<Rightarrow>
                   if status response \<ge> 400
                   then Inl (Error (''HTTP '' @ decimal (status response) @ '': ''
                                      @ statusText response))
                   else Inr \<lparr>html = response_data L response,
                             performance =
                               \<lparr>loadTime = loadTime',
                                responseTime = loadTime',
                                redirects =
                                  (if responseUrl response \<noteq> Some url then 1 else 0),
                                ssl = startsWith url ''https://'',
                                pageSize = contentLength\<rparr>\<rparr>)))"

text \<open>Lines 49 to 81: the call of axios, the block above, and the \<^verbatim>\<open>catch\<close> that rethrows.\<close>

definition fetchPage :: "lib \<Rightarrow> string \<Rightarrow> world \<Rightarrow> (thrown + fetchOutcome) \<times> world" where
  "fetchPage L url w =
     (let startTime = Date_now w
      in (case axios any_status (GET url) w of
            (reply, w') \<Rightarrow>
              (case fetchPage_try L url startTime (Date_now w') reply of
                 Inl error \<Rightarrow>
                   (Inl (Error (''Failed to fetch page: '' @ error_message error)), w')
               | Inr outcome \<Rightarrow> (Inr outcome, w'))))"

section \<open>fetchRobotsTxt and checkLinkStatus\<close>

text \<open>
  Lines 83 to 91: every failure, a status outside 2xx included, gives \<open>null\<close>; a
  response gives \<^verbatim>\<open>response.data\<close>, of whatever type.
\<close>

definition fetchRobotsTxt :: "lib \<Rightarrow> string \<Rightarrow> world \<Rightarrow> js \<times> world" where
  "fetchRobotsTxt L baseUrl w =
     (case new_URL L ''/robots.txt'' (Some baseUrl) of
        Inl error \<Rightarrow> (JNull, w)
      | Inr robotsUrl \<Rightarrow>
          (case axios default_status (GET (href robotsUrl)) w of
             (Inl error, w') \<Rightarrow> (JNull, w')
           | (Inr response, w') \<Rightarrow> (response_data L response, w')))"

record linkStatus =
  ls_status :: nat
  ls_error :: "string option"

text \<open>Lines 93 to 106: the \<^verbatim>\<open>catch\<close> returns a value, so nothing is thrown.\<close>

definition checkLinkStatus :: "string \<Rightarrow> world \<Rightarrow> linkStatus \<times> world" where
  "checkLinkStatus url w =
     (case axios any_status (HEAD url) w of
        (Inr response, w') \<Rightarrow> (\<lparr>ls_status = status response, ls_error = None\<rparr>, w')
      | (Inl error, w') \<Rightarrow> (\<lparr>ls_status = 0, ls_error = Some (error_message error)\<rparr>, w'))"

section \<open>extractMetaTags\<close>

text \<open>Lines 121 to 123, the \<^verbatim>\<open>try\<close> block around the two URL constructions.\<close>

definition canonicalMatches_try :: "lib \<Rightarrow> string \<Rightarrow> string \<Rightarrow> thrown + bool" where
  "canonicalMatches_try L canonical' originalUrl =
     (case new_URL L canonical' (Some originalUrl) of
        Inl e \<Rightarrow> Inl e
      | Inr canonicalUrl \<Rightarrow>
          (case new_URL L originalUrl None of
             Inl e \<Rightarrow> Inl e
           | Inr inputUrl \<Rightarrow> Inr (href canonicalUrl = href inputUrl)))"

text \<open>
  Lines 108 to 146. \<open>canonical'\<close> is \<open>null\<close> or a non-empty string, so the test
  \<^verbatim>\<open>if (canonical)\<close> is the case distinction on it.
\<close>

definition extractMetaTags :: "lib \<Rightarrow> string \<Rightarrow> string \<Rightarrow> metaTags" where
  "extractMetaTags L html' originalUrl =
     (let doc = load L html';
          title' = or_null (Some (trim (text_of (doc sel_title))));
          description' = trimmed_or_null (attr (doc sel_description) ''content'');
          keywords' = trimmed_or_null (attr (doc sel_keywords) ''content'');
          canonical' = or_null (attr (doc sel_canonical) ''href'');
          robots' = trimmed_or_null (attr (doc sel_robots) ''content'');
          htmlLang' = trimmed_or_null (attr (doc sel_html) ''lang'');
          canonicalMatches' =
            (case canonical' of
               None \<Rightarrow> False
             | Some c \<Rightarrow>
                 (case canonicalMatches_try L c originalUrl of
                    Inl error \<Rightarrow> False
                  | Inr b \<Rightarrow> b));
          robotsValid' =
            (case robots' of
               None \<Rightarrow> False
             | Some r \<Rightarrow> includes_str r ''index'' \<or> includes_str r ''noindex'');
          maxImagePreview' =
            (case robots' of
               None \<Rightarrow> False
             | Some r \<Rightarrow> includes_str r ''max-image-preview:large'')
      in \<lparr>title = title',
          titleLength = (case title' of None \<Rightarrow> 0 | Some t \<Rightarrow> int (length t)),
          description = description',
          descriptionLength = (case description' of None \<Rightarrow> 0 | Some t \<Rightarrow> int (length t)),
          keywordsTag = keywords',
          keywordsLength = (case keywords' of None \<Rightarrow> 0 | Some t \<Rightarrow> int (length t)),
          canonical = canonical',
          canonicalMatches = canonicalMatches',
          robots = robots',
          robotsValid = robotsValid',
          htmlLang = htmlLang',
          maxImagePreview = maxImagePreview'\<rparr>)"

section \<open>analyzeLinks\<close>

record link =
  link_url :: string
  link_text :: string
  isExternal :: bool
  nofollow :: bool

text \<open>
  Lines 337 to 357, the callback run on each anchor: it pushes one link or none.
  \<open>base\<close> is the parsed \<open>baseUrl\<close>.
\<close>

definition collect_link :: "lib \<Rightarrow> string \<Rightarrow> URL \<Rightarrow> element \<Rightarrow> link list" where
  "collect_link L baseUrl base anchor =
     (let href' = attr [anchor] ''href'';
          text' = trim (text_of [anchor]);
          nofollow' =
            (case attr [anchor] ''rel'' of
               None \<Rightarrow> False
             | Some r \<Rightarrow> includes_str r ''nofollow'')
      in (case href' of
            None \<Rightarrow> []
          | Some h \<Rightarrow>
              if h = [] \<or> startsWith h ''#'' \<or> startsWith h ''mailto:'' \<or> startsWith h ''tel:''
              then []
              else (case new_URL L h (Some baseUrl) of
                      Inl error \<Rightarrow> []
                    | Inr absoluteUrl \<Rightarrow>
                        [\<lparr>link_url = href absoluteUrl,
                          link_text = text',
                          isExternal = (hostname absoluteUrl \<noteq> hostname base),
                          nofollow = nofollow'\<rparr>])))"

text \<open>Lines 334 to 358: \<open>allLinks\<close> after the callback has run on every anchor.\<close>

definition allLinks_of :: "lib \<Rightarrow> string \<Rightarrow> string \<Rightarrow> URL \<Rightarrow> link list" where
  "allLinks_of L html' baseUrl base =
     concat (map (collect_link L baseUrl base) (load L html' sel_anchor))"

text \<open>Lines 360, 361 and 364.\<close>

definition internalLinks_of :: "link list \<Rightarrow> link list" where
  "internalLinks_of allLinks = filter (\<lambda>l. \<not> isExternal l) allLinks"

definition externalLinks_of :: "link list \<Rightarrow> link list" where
  "externalLinks_of allLinks = filter (\<lambda>l. isExternal l) allLinks"

definition linksToCheck_of :: "link list \<Rightarrow> link list" where
  "linksToCheck_of allLinks = internalLinks_of allLinks @ take 10 (externalLinks_of allLinks)"

text \<open>Lines 368 to 376, the body of the loop for one link.\<close>

definition check_link ::
  "link \<Rightarrow> brokenLink list \<Rightarrow> world \<Rightarrow> brokenLink list \<times> world" where
  "check_link l broken' w =
     (case checkLinkStatus (link_url l) w of
        (result, w') \<Rightarrow>
          if ls_status result \<ge> 400 \<or> ls_status result = 0
          then (broken' @ [\<lparr>b_url = link_url l,
                            b_text = link_text l,
                            b_status = ls_status result,
                            b_error = ls_error result\<rparr>], w')
          else (broken', w'))"

text \<open>Line 367, the loop.\<close>

fun check_loop :: "link list \<Rightarrow> brokenLink list \<Rightarrow> world \<Rightarrow> brokenLink list \<times> world" where
  "check_loop [] broken' w = (broken', w)"
| "check_loop (l # ls) broken' w =
     (case check_link l broken' w of (broken'', w') \<Rightarrow> check_loop ls broken'' w')"

text \<open>Lines 330 to 391. Parsing \<open>baseUrl\<close> may throw; nothing else does.\<close>

definition analyzeLinks :: "lib \<Rightarrow> string \<Rightarrow> string \<Rightarrow> world \<Rightarrow> (thrown + links) \<times> world" where
  "analyzeLinks L html' baseUrl w =
     (case new_URL L baseUrl None of
        Inl e \<Rightarrow> (Inl e, w)
      | Inr base \<Rightarrow>
          (let allLinks = allLinks_of L html' baseUrl base
           in (case check_loop (take 20 (linksToCheck_of allLinks)) [] w of
                 (broken', w') \<Rightarrow>
                   (Inr \<lparr>total = int (length allLinks),
                         internal = int (length (internalLinks_of allLinks)),
                         external = int (length (externalLinks_of allLinks)),
                         broken = broken',
                         externalLinks =
                           map (\<lambda>l. \<lparr>e_url = link_url l,
                                      e_text = link_text l,
                                      e_nofollow = nofollow l,
                                      e_status = 200\<rparr>)
                               (externalLinks_of allLinks)\<rparr>, w'))))"

section \<open>AMP detection\<close>

text \<open>Lines 44 to 47.\<close>

definition isAmpPage :: "lib \<Rightarrow> string \<Rightarrow> bool" where
  "isAmpPage L html' =
     (let doc = load L html'
      in attr (doc sel_html) ''amp'' \<noteq> None \<or> attr (doc sel_html) bolt \<noteq> None)"

text \<open>Lines 30 to 41: the first pattern that answers 200 to a HEAD request.\<close>

fun probe_patterns :: "string list \<Rightarrow> world \<Rightarrow> string option \<times> world" where
  "probe_patterns [] w = (None, w)"
| "probe_patterns (ampUrl' # rest) w =
     (case axios any_status (HEAD ampUrl') w of
        (Inl error, w') \<Rightarrow> probe_patterns rest w'
      | (Inr response, w') \<Rightarrow>
          if status response = 200 then (Some ampUrl', w') else probe_patterns rest w')"

text \<open>Lines 7 to 42.\<close>

definition detectAmpUrl ::
  "lib \<Rightarrow> string \<Rightarrow> string \<Rightarrow> world \<Rightarrow> (thrown + string option) \<times> world" where
  "detectAmpUrl L html' originalUrl w =
     (let doc = load L html';
          ampLink = attr (doc sel_amphtml) ''href''
      in (case or_null ampLink of
            Some a \<Rightarrow>
              (case new_URL L a (Some originalUrl) of
                 Inl e \<Rightarrow> (Inl e, w)
               | Inr u \<Rightarrow> (Inr (Some (href u)), w))
          | None \<Rightarrow>
              if attr (doc sel_html) ''amp'' \<noteq> None \<or> attr (doc sel_html) bolt \<noteq> None
              then (Inr (Some originalUrl), w)
              else (case new_URL L originalUrl None of
                      Inl e \<Rightarrow> (Inl e, w)
                    | Inr u \<Rightarrow>
                        (case probe_patterns
                                [origin u @ ''/amp'' @ pathname u,
                                 origin u @ pathname u @ ''/amp/'',
                                 origin u @ pathname u @ ''?amp=1'',
                                 origin u @ ''/amp'' @ pathname u @ search u] w of
                           (found, w') \<Rightarrow> (Inr found, w')))))"

section \<open>analyzeWebsite\<close>

text \<open>
  The result of \<open>analyzeWebsite\<close>, without the fields that extractors which query the
  loaded document alone and do not throw compute (dates, author, breadcrumbs, schema,
  openGraph, twitterCard, accessibility), the time stamp, the scores computed from all of
  them, and the comparison of the AMP and regular versions, which is attempted last and
  whose failure is caught.
\<close>

record analysis =
  url :: string
  an_metaTags :: metaTags
  an_robotsTxt :: robotsTxt
  an_links :: links
  an_performance :: performance
  isAmp :: bool
  ampUrl :: "string option"
  regularUrl :: "string option"

text \<open>
  Lines 543 to 559: \<open>ampUrl\<close> and \<open>regularUrl\<close>, given \<open>isCurrentAmp\<close>. Resolving the
  canonical link may throw.
\<close>

definition ampAndRegularUrl ::
  "lib \<Rightarrow> string \<Rightarrow> string \<Rightarrow> bool \<Rightarrow> world
     \<Rightarrow> (thrown + string option \<times> string option) \<times> world" where
  "ampAndRegularUrl L html' normalizedUrl isCurrentAmp w =
     (if isCurrentAmp then
        (let doc = load L html';
             canonicalLink = attr (doc sel_canonical) ''href''
         in (case or_null canonicalLink of
               Some c \<Rightarrow>
                 (case new_URL L c (Some normalizedUrl) of
                    Inl e \<Rightarrow> (Inl e, w)
                  | Inr u \<Rightarrow> (Inr (Some normalizedUrl, Some (href u)), w))
             | None \<Rightarrow> (Inr (Some normalizedUrl, None), w)))
      else
        (case detectAmpUrl L html' normalizedUrl w of
           (Inl e, w') \<Rightarrow> (Inl e, w')
         | (Inr ampUrl', w') \<Rightarrow> (Inr (ampUrl', Some normalizedUrl), w')))"

text \<open>
  Line 577, \<^verbatim>\<open>robotsTxtContent ? this.parseRobotsTxt(robotsTxtContent) : []\<close>. On a truthy
  value that is not a string, \<open>parseRobotsTxt\<close> passes its first test and throws at
  \<^verbatim>\<open>content.split\<close>.
\<close>

definition robotsTxt_rules :: "js \<Rightarrow> thrown + rule list" where
  "robotsTxt_rules robotsTxtContent =
     (if truthy_js robotsTxtContent then
        (case robotsTxtContent of
           JString content \<Rightarrow> Inr (parseRobotsTxt content)
         | _ \<Rightarrow> Inl (Error split_not_a_function))
      else Inr [])"

text \<open>
  What the extractors of lines 543 to 570 work on. Each receives the fetched value as
  its \<open>html\<close> and only passes it to \<^verbatim>\<open>load\<close>. For a string, that is the library and
  the string. For another value, \<^verbatim>\<open>load\<close> throws, which ends the analysis at the first
  extractor, or gives a document, which every later \<^verbatim>\<open>load(html)\<close> gives again: that
  is the library in which \<open>load\<close> answers this document, with an html that is not looked
  at. \<open>document_of\<close> is the document that the extractors query.
\<close>

definition with_document :: "lib \<Rightarrow> (string \<Rightarrow> element list) \<Rightarrow> lib" where
  "with_document L doc = L\<lparr>load := (\<lambda>h. doc)\<rparr>"

definition extractor_input :: "lib \<Rightarrow> js \<Rightarrow> thrown + lib \<times> string" where
  "extractor_input L v =
     (case v of
        JString h \<Rightarrow> Inr (L, h)
      | _ \<Rightarrow>
          (case load_value L v of
             Inl e \<Rightarrow> Inl e
           | Inr doc \<Rightarrow> Inr (with_document L doc, [])))"

definition document_of :: "lib \<Rightarrow> js \<Rightarrow> thrown + (string \<Rightarrow> element list)" where
  "document_of L v =
     (case v of
        JString h \<Rightarrow> Inr (load L h)
      | _ \<Rightarrow> load_value L v)"

text \<open>
  Lines 536 to 620, the \<^verbatim>\<open>try\<close> block. The world returned is the one after the
  robots.txt request.
\<close>

definition analyzeWebsite_try :: "lib \<Rightarrow> string \<Rightarrow> world \<Rightarrow> (thrown + analysis) \<times> world" where
  "analyzeWebsite_try L url' w =
     (let normalizedUrl = (if startsWith url' ''http'' then url' else ''https://'' @ url')
      in (case fetchPage L normalizedUrl w of
            (Inl e, w1) \<Rightarrow> (Inl e, w1)
          | (Inr fetched, w1) \<Rightarrow>
              (case extractor_input L (html fetched) of
                 Inl e \<Rightarrow> (Inl e, w1)
               | Inr (L', html') \<Rightarrow>
                   (let isCurrentAmp = isAmpPage L' html'
                    in (case ampAndRegularUrl L' html' normalizedUrl isCurrentAmp w1 of
                          (Inl e, w2) \<Rightarrow> (Inl e, w2)
                        | (Inr (ampUrl', regularUrl'), w2) \<Rightarrow>
                            (let metaTags' = extractMetaTags L' html' normalizedUrl
                             in (case analyzeLinks L' html' normalizedUrl w2 of
                                   (Inl e, w3) \<Rightarrow> (Inl e, w3)
                                 | (Inr links', w3) \<Rightarrow>
                                     (case fetchRobotsTxt L' normalizedUrl w3 of
                                        (robotsTxtContent, w4) \<Rightarrow>
                                          (case robotsTxt_rules robotsTxtContent of
                                             Inl e \<Rightarrow> (Inl e, w4)
                                           | Inr rules \<Rightarrow>
                                               (Inr \<lparr>url = normalizedUrl,
                                                     an_metaTags = metaTags',
                                                     an_robotsTxt =
                                                       \<lparr>rt_found = truthy_js robotsTxtContent,
                                                        rt_content = robotsTxtContent,
                                                        rt_rules = rules\<rparr>,
                                                     an_links = links',
                                                     an_performance = performance fetched,
                                                     isAmp = isCurrentAmp,
                                                     ampUrl = or_null ampUrl',
                                                     regularUrl = or_null regularUrl'\<rparr>,
                                                w4))))))))))"

text \<open>Lines 534 to 625: the block above and the \<^verbatim>\<open>catch\<close> that rethrows.\<close>

definition analyzeWebsite :: "lib \<Rightarrow> string \<Rightarrow> world \<Rightarrow> (thrown + analysis) \<times> world" where
  "analyzeWebsite L url' w =
     (case analyzeWebsite_try L url' w of
        (Inl error, w') \<Rightarrow>
          (Inl (Error (''SEO analysis failed: '' @ error_message error)), w')
      | (Inr result, w') \<Rightarrow> (Inr result, w'))"

section \<open>The robots.txt parsing policy, as the specification words it\<close>

text \<open>
  The specification reads a robots.txt file line by line. A line is blank or a comment
  (ignored), a \<open>user-agent\<close> line (it sets the current group), an \<open>allow\<close>, \<open>disallow\<close> or
  \<open>sitemap\<close> line (it is recorded under the current group), or unrecognised (ignored). The
  line is split at its first colon; the directive is compared without regard to case.
\<close>

datatype robots_line = Ignored | Group string | Entry string string

definition split_first_colon :: "string \<Rightarrow> string \<times> string" where
  "split_first_colon s =
     (takeWhile (\<lambda>c. c \<noteq> CHR '':'') s, drop 1 (dropWhile (\<lambda>c. c \<noteq> CHR '':'') s))"

definition policy_line :: "string \<Rightarrow> robots_line" where
  "policy_line line =
     (let t = trim line
      in if t = [] \<or> take 1 t = ''#'' then Ignored
         else (case split_first_colon t of
                 (d, p) \<Rightarrow>
                   if toLowerCase d = ''user-agent'' then Group (trim p)
                   else if toLowerCase d = ''allow'' then Entry ''allow'' (trim p)
                   else if toLowerCase d = ''disallow'' then Entry ''disallow'' (trim p)
                   else if toLowerCase d = ''sitemap'' then Entry ''sitemap'' (trim p)
                   else Ignored))"

text \<open>The rules in file order, each under the group current at its line.\<close>

fun policy_rules :: "string \<Rightarrow> robots_line list \<Rightarrow> rule list" where
  "policy_rules g [] = []"
| "policy_rules g (Ignored # ls) = policy_rules g ls"
| "policy_rules g (Group g' # ls) = policy_rules g' ls"
| "policy_rules g (Entry d p # ls) =
     \<lparr>userAgent = g, directive = d, path = p\<rparr> # policy_rules g ls"

definition robots_policy :: "string \<Rightarrow> rule list" where
  "robots_policy content =
     policy_rules ''*'' (map policy_line (split_char (CHR 0x0A) content))"

section \<open>The broken-link accounting, as the specification words it\<close>

text \<open>
  What the specification records for a checked link, given what its probe did: nothing
  for a status below 400, the link with that status and no error for a status of 400 or
  more, and the link with status 0 and the failure's message for a probe that failed at
  the transport layer.
\<close>

definition recorded_for :: "link \<Rightarrow> thrown + response \<Rightarrow> brokenLink list" where
  "recorded_for l probe =
     (case probe of
        Inl failure \<Rightarrow>
          [\<lparr>b_url = link_url l, b_text = link_text l,
            b_status = 0, b_error = Some (error_message failure)\<rparr>]
      | Inr r \<Rightarrow>
          if status r \<ge> 400
          then [\<lparr>b_url = link_url l, b_text = link_text l,
                 b_status = status r, b_error = None\<rparr>]
          else [])"

text \<open>
  The broken list that the specification calls for when the links are probed in turn
  from the world \<open>w\<close>: each probe is answered after the requests sent before it.
\<close>

fun expected_broken :: "link list \<Rightarrow> world \<Rightarrow> brokenLink list" where
  "expected_broken [] w = []"
| "expected_broken (l # ls) w =
     recorded_for l (respond w (requests w) (HEAD (link_url l)))
     @ expected_broken ls (w\<lparr>requests := requests w @ [HEAD (link_url l)]\<rparr>)"

section \<open>Example inputs\<close>

text \<open>The fact bundle of the scoring example of the specification.\<close>

definition example_bundle :: scoreData where
  "example_bundle =
     \<lparr>sd_metaTags =
        \<lparr>title = Some ''Fifty-five characters of title, not one more, not less.'',
         titleLength = 55,
         description = None,
         descriptionLength = 0,
         keywordsTag = None,
         keywordsLength = 0,
         canonical = Some ''https://example.com/blog'',
         canonicalMatches = True,
         robots = Some ''index, follow'',
         robotsValid = True,
         htmlLang = Some ''en'',
         maxImagePreview = False\<rparr>,
      sd_schema_found = True,
      sd_robotsTxt = \<lparr>rt_found = True, rt_content = JString ''User-agent: *'', rt_rules = []\<rparr>,
      sd_links = \<lparr>total = 0, internal = 0, external = 0, broken = [], externalLinks = []\<rparr>,
      sd_breadcrumbs_found = False\<rparr>"

text \<open>The robots.txt file of the parsing example of the specification.\<close>

definition example_robots :: string where
  "example_robots =
     ''User-agent: *'' @ [CHR 0x0A] @ ''Disallow: /admin'' @ [CHR 0x0A] @ ''Sitemap: /sitemap.xml''"

text \<open>
  A URL parser defined on the few inputs of the examples, where it answers as the WHATWG
  parser does, and throwing elsewhere: \<open>example_target\<close> gives the host and the path of the
  URL that an input resolves to.
\<close>

definition example_URL :: "string \<Rightarrow> string \<Rightarrow> URL" where
  "example_URL host p =
     \<lparr>href = ''https://'' @ host @ p,
      origin = ''https://'' @ host,
      pathname = p,
      search = [],
      hostname = host\<rparr>"

definition example_target :: "string \<Rightarrow> string option \<Rightarrow> (string \<times> string) option" where
  "example_target input base =
     (if input = ''https://example.com/blog'' then Some (''example.com'', ''/blog'')
      else if input = ''https://example.com/amp'' then Some (''example.com'', ''/amp'')
      else if input = ''https://example.com/amp2'' then Some (''example.com'', ''/amp2'')
      else if input = ''https://example.com/links'' then Some (''example.com'', ''/links'')
      else if input = ''https://other.com'' then Some (''other.com'', ''/'')
      else if base \<in> {Some ''https://example.com/blog'', Some ''https://example.com/amp'',
                       Some ''https://example.com/amp2'', Some ''https://example.com/links''}
              \<and> input \<in> {''/about'', ''/blog'', ''/robots.txt'', ''/gone'', ''/slow''}
      then Some (''example.com'', input)
      else if input = [] \<and> base = Some ''https://example.com/amp''
      then Some (''example.com'', ''/amp'')
      else None)"

definition example_new_URL :: "string \<Rightarrow> string option \<Rightarrow> thrown + URL" where
  "example_new_URL input base =
     (case example_target input base of
        None \<Rightarrow> Inl (Error ''Invalid URL'')
      | Some (host, p) \<Rightarrow> Inr (example_URL host p))"

text \<open>
  Four documents: a page with 30 internal and 15 external anchors; an AMP page whose
  canonical link has an empty href; an AMP page with a canonical link and an amphtml link;
  a page with three internal anchors.
\<close>

definition links_html :: string where
  \<open>links_html =
     ''<a href="/gone">Gone</a><a href="/about">About</a><a href="/slow">Slow</a>''\<close>

definition links_document :: "string \<Rightarrow> element list" where
  "links_document selector =
     (if selector = sel_anchor
      then [\<lparr>attribs = [(''href'', ''/gone'')], innerText = ''Gone''\<rparr>,
            \<lparr>attribs = [(''href'', ''/about'')], innerText = ''About''\<rparr>,
            \<lparr>attribs = [(''href'', ''/slow'')], innerText = ''Slow''\<rparr>]
      else [])"

definition blog_html :: string where
  \<open>blog_html = ''<html lang="en"><title>Blog</title> and 45 anchors</html>''\<close>

definition amp_html :: string where
  \<open>amp_html = ''<html amp><link rel="canonical" href=""></html>''\<close>

definition amp2_html :: string where
  \<open>amp2_html =
     ''<html amp><link rel="canonical" href="/blog"><link rel="amphtml" href="/amp2"></html>''\<close>

definition blog_document :: "string \<Rightarrow> element list" where
  "blog_document selector =
     (if selector = sel_html then [\<lparr>attribs = [(''lang'', ''en'')], innerText = ''Blog''\<rparr>]
      else if selector = sel_title then [\<lparr>attribs = [], innerText = ''Blog''\<rparr>]
      else if selector = sel_canonical
      then [\<lparr>attribs = [(''rel'', ''canonical''), (''href'', ''/blog'')], innerText = []\<rparr>]
      else if selector = sel_anchor
      then replicate 30 \<lparr>attribs = [(''href'', ''/about'')], innerText = ''About''\<rparr>
           @ replicate 15 \<lparr>attribs = [(''href'', ''https://other.com''), (''rel'', ''nofollow'')],
                           innerText = ''Other''\<rparr>
      else [])"

definition amp_document :: "string \<Rightarrow> element list" where
  "amp_document selector =
     (if selector = sel_html then [\<lparr>attribs = [(''amp'', [])], innerText = []\<rparr>]
      else if selector = sel_canonical
      then [\<lparr>attribs = [(''rel'', ''canonical''), (''href'', [])], innerText = []\<rparr>]
      else [])"

definition amp2_document :: "string \<Rightarrow> element list" where
  "amp2_document selector =
     (if selector = sel_html then [\<lparr>attribs = [(''amp'', [])], innerText = []\<rparr>]
      else if selector = sel_canonical
      then [\<lparr>attribs = [(''rel'', ''canonical''), (''href'', ''/blog'')], innerText = []\<rparr>]
      else if selector = sel_amphtml
      then [\<lparr>attribs = [(''rel'', ''amphtml''), (''href'', ''/amp2'')], innerText = []\<rparr>]
      else [])"

text \<open>
  \<^verbatim>\<open>JSON.parse\<close> and cheerio's \<^verbatim>\<open>load\<close> on a value that is not a string, defined on the
  inputs of the examples: the texts \<open>null\<close> and \<open>{}\<close> are JSON and no other body of the
  examples is; \<^verbatim>\<open>load\<close> throws on \<open>null\<close> and makes of the empty object a document in
  which no selector matches.
\<close>

definition example_JSON_parse :: "string \<Rightarrow> thrown + js" where
  "example_JSON_parse t =
     (if t = ''null'' then Inr JNull
      else if t = ''{}'' then Inr (JObject [])
      else Inl (Error ''Unexpected token''))"

definition example_load_value :: "js \<Rightarrow> thrown + (string \<Rightarrow> element list)" where
  "example_load_value v =
     (if v = JObject [] then Inr (\<lambda>selector. [])
      else Inl (Error ''cheerio.load() expects a string''))"

definition example_lib :: lib where
  "example_lib =
     \<lparr>load = (\<lambda>h. if h = blog_html then blog_document
                   else if h = amp_html then amp_document
                   else if h = amp2_html then amp2_document
                   else if h = links_html then links_document
                   else (\<lambda>selector. [])),
      new_URL = example_new_URL,
      parseInt = (\<lambda>h. NaN),
      JSON_parse = example_JSON_parse,
      load_value = example_load_value\<rparr>"

text \<open>
  A network that serves the four documents, a robots.txt file and two JSON bodies,
  answers 404 at two addresses, has followed three redirects at one, and fails at the
  transport layer at two others.
\<close>

definition example_response :: "nat \<Rightarrow> string \<Rightarrow> string \<Rightarrow> string \<Rightarrow> response" where
  "example_response code reason content final =
     \<lparr>status = code,
      statusText = reason,
      content_length = None,
      body = content,
      responseUrl = Some final,
      redirectCount = 0\<rparr>"

definition example_net :: "request \<Rightarrow> thrown + response" where
  "example_net rq =
     (case rq of
        GET u \<Rightarrow>
          if u = ''https://example.com/blog''
          then Inr (example_response 200 ''OK'' blog_html u)
          else if u = ''https://example.com/amp''
          then Inr (example_response 200 ''OK'' amp_html u)
          else if u = ''https://example.com/amp2''
          then Inr (example_response 200 ''OK'' amp2_html u)
          else if u = ''https://example.com/links''
          then Inr (example_response 200 ''OK'' links_html u)
          else if u = ''https://example.com/null''
          then Inr (example_response 200 ''OK'' ''null'' u)
          else if u = ''https://example.com/data.json''
          then Inr (example_response 200 ''OK'' ''{}'' u)
          else if u = ''https://example.com/robots.txt''
          then Inr (example_response 200 ''OK'' example_robots u)
          else if u = ''https://example.com/missing''
          then Inr (example_response 404 ''Not Found'' ''<h1>Not Found</h1>'' u)
          else if u = ''https://example.com/moved''
          then Inr ((example_response 200 ''OK'' blog_html ''https://www.example.com/blog'')
                      \<lparr>redirectCount := 3\<rparr>)
          else Inl (Error ''getaddrinfo ENOTFOUND'')
      | HEAD u \<Rightarrow>
          if u = ''https://example.com/gone''
          then Inr (example_response 404 ''Not Found'' [] u)
          else if u = ''https://example.com/slow''
          then Inl (Error ''timeout of 5000ms exceeded'')
          else Inr (example_response 200 ''OK'' [] u))"

definition example_world :: world where
  "example_world =
     \<lparr>requests = [],
      respond = (\<lambda>sent rq. example_net rq),
      clock = (\<lambda>sent. 100 * int (length sent))\<rparr>"

definition example_link :: "string \<Rightarrow> link" where
  "example_link u = \<lparr>link_url = u, link_text = ''a link'', isExternal = False, nofollow = False\<rparr>"

section \<open>Facts about the string functions\<close>

lemma split_char_not_Nil: "split_char c s \<noteq> []"
  by (induction s) (auto split: list.splits)

lemma join_Cons_Cons: "join sep ((x # p) # ps) = x # join sep (p # ps)"
  by (cases ps) simp_all

lemma join_split_char: "join [c] (split_char c s) = s"
proof (induction s)
  case Nil
  then show ?case by simp
next
  case (Cons x xs)
  obtain p ps where ps: "split_char c xs = p # ps"
    using split_char_not_Nil [of c xs] by (cases "split_char c xs") auto
  show ?case
  proof (cases "x = c")
    case True
    then show ?thesis using Cons ps by simp
  next
    case False
    then show ?thesis using Cons ps by (simp add: join_Cons_Cons)
  qed
qed

text \<open>
  Destructuring \<^verbatim>\<open>s.split(c)\<close> into its head and the rest joined again splits \<open>s\<close> at
  the first \<open>c\<close>.
\<close>

lemma split_char_first:
  "\<exists>ps. split_char c s = takeWhile (\<lambda>x. x \<noteq> c) s # ps
        \<and> join [c] ps = drop 1 (dropWhile (\<lambda>x. x \<noteq> c) s)"
proof (induction s)
  case Nil
  then show ?case by simp
next
  case (Cons x xs)
  then obtain ps where ps: "split_char c xs = takeWhile (\<lambda>x. x \<noteq> c) xs # ps"
    "join [c] ps = drop 1 (dropWhile (\<lambda>x. x \<noteq> c) xs)" by blast
  show ?case
  proof (cases "x = c")
    case True
    then show ?thesis using join_split_char [of c xs] by simp
  next
    case False
    then show ?thesis using ps by simp
  qed
qed

lemma startsWith_hash: "startsWith t ''#'' = (take 1 t = ''#'')"
  by (simp add: startsWith_def)


section \<open>calculateScore\<close>

lemma Math_round_score: "Math_round ((of_int s / 70) * 100) = (20 * s + 7) div 14"
proof -
  have "(of_int s / 70) * 100 + 1 / 2 = (of_int (20 * s + 7) :: rat) / of_int 14"
    by (simp add: field_simps)
  then show ?thesis
    unfolding Math_round_def by (simp only: floor_divide_of_int_eq)
qed

lemma Math_round_55: "Math_round (550 / 7) = 79"
  using Math_round_score [of 55] by simp

lemmas score_blocks =
  score_title_def score_description_def score_canonical_def score_robots_def
  score_htmlLang_def score_schema_def score_robotsTxt_def score_brokenLinks_def
  score_breadcrumbs_def

text \<open>Every block keeps the four counters at or above zero.\<close>

lemma blocks_nonneg:
  fixes t :: tally
  assumes "0 \<le> score t \<and> 0 \<le> issues t \<and> 0 \<le> warnings t \<and> 0 \<le> passed t"
  shows "0 \<le> score (score_title d t) \<and> 0 \<le> issues (score_title d t)
           \<and> 0 \<le> warnings (score_title d t) \<and> 0 \<le> passed (score_title d t)"
    and "0 \<le> score (score_description d t) \<and> 0 \<le> issues (score_description d t)
           \<and> 0 \<le> warnings (score_description d t) \<and> 0 \<le> passed (score_description d t)"
    and "0 \<le> score (score_canonical d t) \<and> 0 \<le> issues (score_canonical d t)
           \<and> 0 \<le> warnings (score_canonical d t) \<and> 0 \<le> passed (score_canonical d t)"
    and "0 \<le> score (score_robots d t) \<and> 0 \<le> issues (score_robots d t)
           \<and> 0 \<le> warnings (score_robots d t) \<and> 0 \<le> passed (score_robots d t)"
    and "0 \<le> score (score_htmlLang d t) \<and> 0 \<le> issues (score_htmlLang d t)
           \<and> 0 \<le> warnings (score_htmlLang d t) \<and> 0 \<le> passed (score_htmlLang d t)"
    and "0 \<le> score (score_schema d t) \<and> 0 \<le> issues (score_schema d t)
           \<and> 0 \<le> warnings (score_schema d t) \<and> 0 \<le> passed (score_schema d t)"
    and "0 \<le> score (score_robotsTxt d t) \<and> 0 \<le> issues (score_robotsTxt d t)
           \<and> 0 \<le> warnings (score_robotsTxt d t) \<and> 0 \<le> passed (score_robotsTxt d t)"
    and "0 \<le> score (score_brokenLinks d t) \<and> 0 \<le> issues (score_brokenLinks d t)
           \<and> 0 \<le> warnings (score_brokenLinks d t) \<and> 0 \<le> passed (score_brokenLinks d t)"
    and "0 \<le> score (score_breadcrumbs d t) \<and> 0 \<le> issues (score_breadcrumbs d t)
           \<and> 0 \<le> warnings (score_breadcrumbs d t) \<and> 0 \<le> passed (score_breadcrumbs d t)"
  using assms by (simp_all add: score_blocks)

lemma rawScore_nonneg:
  "0 \<le> score (rawScore d) \<and> 0 \<le> issues (rawScore d)
   \<and> 0 \<le> warnings (rawScore d) \<and> 0 \<le> passed (rawScore d)"
  unfolding rawScore_def by (intro blocks_nonneg) simp

text \<open>
  Each block adds 0, 5, 10 or 15 points, and at most its weight, so the raw score is a
  multiple of 5 between 0 and 70: the values on which the rational model of
  \<^verbatim>\<open>Math.round\<close> agrees with the double-precision computation.
\<close>

lemma blocks_points:
  "points_within t (score_title d t) 10"
  "points_within t (score_description d t) 10"
  "points_within t (score_canonical d t) 5"
  "points_within t (score_robots d t) 5"
  "points_within t (score_htmlLang d t) 5"
  "points_within t (score_schema d t) 15"
  "points_within t (score_robotsTxt d t) 5"
  "points_within t (score_brokenLinks d t) 10"
  "points_within t (score_breadcrumbs d t) 5"
  by (simp_all add: points_within_def score_blocks)

lemma points_within_step:
  assumes "points_within t' t'' k" and "points_within t t' j"
  shows "points_within t t'' (j + k)"
proof -
  have "5 dvd (score t'' - score t') + (score t' - score t)"
    using assms by (intro dvd_add) (simp_all add: points_within_def)
  then have "5 dvd (score t'' - score t)"
    by simp
  then show ?thesis
    using assms by (simp add: points_within_def)
qed

lemma rawScore_range:
  "0 \<le> score (rawScore d) \<and> score (rawScore d) \<le> 70 \<and> 5 dvd score (rawScore d)"
proof -
  have "points_within \<lparr>score = 0, issues = 0, warnings = 0, passed = 0\<rparr> (rawScore d)
          (10 + 10 + 5 + 5 + 5 + 15 + 5 + 10 + 5)"
    unfolding rawScore_def
    by ((rule points_within_step, rule blocks_points)+, rule blocks_points)
  then show ?thesis
    by (simp add: points_within_def)
qed

text \<open>
  Claim C2, as amended. For a fact bundle with a title of length 55, no description, a
  canonical link that matches, the robots meta \<open>index, follow\<close> (valid), a language, a
  schema, a robots.txt file, no broken link and no breadcrumbs, \<open>calculateScore\<close> returns
  the score 79, which is 55 points of 70 rounded, with 1 issue, 1 warning and 7 checks
  passed.
\<close>

theorem calculateScore_example:
  assumes "truthy (title (sd_metaTags d))"
    and "titleLength (sd_metaTags d) = 55"
    and "\<not> truthy (description (sd_metaTags d))"
    and "truthy (canonical (sd_metaTags d))"
    and "canonicalMatches (sd_metaTags d)"
    and "robots (sd_metaTags d) = Some ''index, follow''"
    and "robotsValid (sd_metaTags d)"
    and "truthy (htmlLang (sd_metaTags d))"
    and "sd_schema_found d"
    and "rt_found (sd_robotsTxt d)"
    and "broken (sd_links d) = []"
    and "\<not> sd_breadcrumbs_found d"
  shows "calculateScore d = \<lparr>score = 79, issues = 1, warnings = 1, passed = 7\<rparr>"
proof -
  have "truthy (robots (sd_metaTags d))"
    using assms(6) by (simp add: truthy_def)
  then have "rawScore d = \<lparr>score = 55, issues = 1, warnings = 1, passed = 7\<rparr>"
    using assms by (simp add: rawScore_def score_blocks)
  then show ?thesis
    by (simp add: calculateScore_def Math_round_55)
qed

theorem calculateScore_example_witness:
  "calculateScore example_bundle = \<lparr>score = 79, issues = 1, warnings = 1, passed = 7\<rparr>"
  using calculateScore_example [of example_bundle]
  by (simp add: example_bundle_def truthy_def)

text \<open>
  The example bundle meets the conditions of claim C2, and its score is 79 with 7 checks
  passed, not 86 with 6.
\<close>

theorem calculateScore_example_counterexample:
  "truthy (title (sd_metaTags example_bundle))
   \<and> titleLength (sd_metaTags example_bundle) = 55
   \<and> description (sd_metaTags example_bundle) = None
   \<and> truthy (canonical (sd_metaTags example_bundle))
   \<and> canonicalMatches (sd_metaTags example_bundle)
   \<and> robots (sd_metaTags example_bundle) = Some ''index, follow''
   \<and> robotsValid (sd_metaTags example_bundle)
   \<and> truthy (htmlLang (sd_metaTags example_bundle))
   \<and> sd_schema_found example_bundle
   \<and> rt_found (sd_robotsTxt example_bundle)
   \<and> broken (sd_links example_bundle) = []
   \<and> \<not> sd_breadcrumbs_found example_bundle
   \<and> score (calculateScore example_bundle) = 79
   \<and> passed (calculateScore example_bundle) = 7
   \<and> calculateScore example_bundle \<noteq> \<lparr>score = 86, issues = 1, warnings = 1, passed = 6\<rparr>"
  by (simp add: example_bundle_def truthy_def calculateScore_def rawScore_def score_blocks
      Math_round_55)

text \<open>
  Claim C3. For every fact bundle, the score that \<open>calculateScore\<close> returns lies between 0
  and 100, and the numbers of issues, of warnings and of checks passed are not negative.
\<close>

theorem calculateScore_bounds:
  "0 \<le> score (calculateScore d) \<and> score (calculateScore d) \<le> 100
   \<and> 0 \<le> issues (calculateScore d) \<and> 0 \<le> warnings (calculateScore d)
   \<and> 0 \<le> passed (calculateScore d)"
  using rawScore_nonneg [of d] by (simp add: calculateScore_def Let_def)

section \<open>parseRobotsTxt\<close>

text \<open>One turn of the loop does what the policy says of the line.\<close>

lemma parseRobotsTxt_loop_step:
  "parseRobotsTxt_loop (line # lines) g rules =
     (case policy_line line of
        Ignored \<Rightarrow> parseRobotsTxt_loop lines g rules
      | Group g' \<Rightarrow> parseRobotsTxt_loop lines g' rules
      | Entry d p \<Rightarrow>
          parseRobotsTxt_loop lines g (rules @ [\<lparr>userAgent = g, directive = d, path = p\<rparr>]))"
proof -
  obtain ps where ps:
    "split_char CHR '':'' (trim line) = takeWhile (\<lambda>x. x \<noteq> CHR '':'') (trim line) # ps"
    "join '':'' ps = drop 1 (dropWhile (\<lambda>x. x \<noteq> CHR '':'') (trim line))"
    using split_char_first [of "CHR '':''" "trim line"] by blast
  show ?thesis
    by (simp add: policy_line_def split_first_colon_def ps startsWith_hash Let_def)
qed

lemma parseRobotsTxt_loop_policy:
  "parseRobotsTxt_loop lines g rules = rules @ policy_rules g (map policy_line lines)"
proof (induction lines arbitrary: g rules)
  case Nil
  then show ?case by simp
next
  case (Cons line lines)
  show ?case
    by (cases "policy_line line")
      (simp_all only: parseRobotsTxt_loop_step Cons robots_line.case list.map
        policy_rules.simps append_assoc append_Cons append_Nil)
qed

text \<open>
  Claim C4. \<open>parseRobotsTxt\<close> follows the line-oriented policy: blank lines and lines
  starting with \<open>#\<close> are ignored, every other line is split at its first colon, a
  \<open>user-agent\<close> line (in any case) sets the current group, which is \<open>*\<close> before the first
  such line, an \<open>allow\<close>, \<open>disallow\<close> or \<open>sitemap\<close> line is appended in file order with the
  current group, the directive in lower case and the path, and any other directive is
  ignored. On the example file it returns the two rules of the specification.
\<close>

theorem parseRobotsTxt_policy:
  "parseRobotsTxt content = robots_policy content
   \<and> parseRobotsTxt example_robots =
       [\<lparr>userAgent = ''*'', directive = ''disallow'', path = ''/admin''\<rparr>,
        \<lparr>userAgent = ''*'', directive = ''sitemap'', path = ''/sitemap.xml''\<rparr>]"
proof
  show "parseRobotsTxt content = robots_policy content"
  proof (cases "content = []")
    case True
    then show ?thesis
      by (simp add: parseRobotsTxt_def robots_policy_def policy_line_def trim_def)
  next
    case False
    then show ?thesis
      by (simp add: parseRobotsTxt_def robots_policy_def parseRobotsTxt_loop_policy)
  qed
  show "parseRobotsTxt example_robots =
       [\<lparr>userAgent = ''*'', directive = ''disallow'', path = ''/admin''\<rparr>,
        \<lparr>userAgent = ''*'', directive = ''sitemap'', path = ''/sitemap.xml''\<rparr>]"
    by code_simp
qed

section \<open>fetchPage\<close>

lemma axios_any_status:
  "axios any_status rq w = (respond w (requests w) rq, w\<lparr>requests := requests w @ [rq]\<rparr>)"
  by (simp add: axios_def any_status_def Let_def split: sum.splits)

lemma fetchPage_unfold:
  "fetchPage L u w =
     (case fetchPage_try L u (Date_now w) (Date_now (w\<lparr>requests := requests w @ [GET u]\<rparr>))
             (respond w (requests w) (GET u)) of
        Inl error \<Rightarrow> Inl (Error (''Failed to fetch page: '' @ error_message error))
      | Inr outcome \<Rightarrow> Inr outcome,
      w\<lparr>requests := requests w @ [GET u]\<rparr>)"
  by (simp add: fetchPage_def axios_any_status Let_def split: sum.splits)

lemma example_respond:
  "respond example_world (requests example_world) rq = example_net rq"
  by (simp add: example_world_def)






text \<open>
  Claim C10. For every successful fetch, the \<open>redirects\<close> field of the performance record
  is 0 or 1, and it is 1 exactly when the final response URL differs from the requested
  URL; it is not the number of redirects that were followed whenever that number exceeds 1.
\<close>

theorem fetchPage_redirects:
  assumes "respond w (requests w) (GET u) = Inr r"
    and "fst (fetchPage L u w) = Inr out"
  shows "redirects (performance out) = (if responseUrl r = Some u then 0 else 1)
    \<and> redirects (performance out) \<le> 1
    \<and> (1 < redirectCount r \<longrightarrow> redirects (performance out) \<noteq> redirectCount r)"
  using assms
  by (auto simp add: fetchPage_unfold fetchPage_try_def Let_def split: if_splits sum.splits)

theorem fetchPage_redirects_witness:
  "map_sum id (\<lambda>out. redirects (performance out))
     (fst (fetchPage example_lib ''https://example.com/moved'' example_world)) = Inr 1
   \<and> map_sum id redirectCount
       (respond example_world (requests example_world) (GET ''https://example.com/moved'')) =
     Inr 3"
proof -
  have "\<not> isl (fst (fetchPage example_lib ''https://example.com/moved'' example_world))"
    by code_simp
  then have "\<exists>out. fst (fetchPage example_lib ''https://example.com/moved'' example_world) = Inr out"
    by (cases "fst (fetchPage example_lib ''https://example.com/moved'' example_world)")
      simp_all
  then obtain out where out:
    "fst (fetchPage example_lib ''https://example.com/moved'' example_world) = Inr out" ..
  have r: "respond example_world (requests example_world) (GET ''https://example.com/moved'') =
      Inr ((example_response 200 ''OK'' blog_html ''https://www.example.com/blog'')
             \<lparr>redirectCount := 3\<rparr>)"
    by (simp add: example_respond example_net_def)
  show ?thesis
    using fetchPage_redirects [OF r out] by (simp add: out r example_response_def)
qed

section \<open>checkLinkStatus and the loop of analyzeLinks\<close>

lemma checkLinkStatus_unfold:
  "checkLinkStatus u w =
     (case respond w (requests w) (HEAD u) of
        Inr response \<Rightarrow> \<lparr>ls_status = status response, ls_error = None\<rparr>
      | Inl error \<Rightarrow> \<lparr>ls_status = 0, ls_error = Some (error_message error)\<rparr>,
      w\<lparr>requests := requests w @ [HEAD u]\<rparr>)"
  by (simp add: checkLinkStatus_def axios_any_status split: sum.splits)

lemma check_link_world:
  "snd (check_link l bs w) = w\<lparr>requests := requests w @ [HEAD (link_url l)]\<rparr>"
  by (simp add: check_link_def checkLinkStatus_unfold)

lemma check_link_broken:
  "fst (check_link l bs w) = bs
   \<or> (\<exists>b. fst (check_link l bs w) = bs @ [b] \<and> b_url b = link_url l \<and> b_text b = link_text l)"
  by (simp add: check_link_def checkLinkStatus_unfold)

text \<open>The loop probes every link it is given, in order, and nothing else.\<close>

lemma check_loop_requests:
  "requests (snd (check_loop ls bs w)) = requests w @ map (\<lambda>l. HEAD (link_url l)) ls"
proof (induction ls arbitrary: bs w)
  case Nil
  then show ?case by simp
next
  case (Cons l ls)
  obtain bs' w' where step: "check_link l bs w = (bs', w')"
    by (cases "check_link l bs w")
  then have "w' = w\<lparr>requests := requests w @ [HEAD (link_url l)]\<rparr>"
    using check_link_world [of l bs w] by simp
  then show ?case
    using Cons [of bs' w'] step by simp
qed

text \<open>The broken links that the loop adds are among the links it is given, in order.\<close>

lemma check_loop_broken:
  "\<exists>ys. fst (check_loop ls bs w) = bs @ ys
        \<and> subseq (map (\<lambda>b. (b_url b, b_text b)) ys) (map (\<lambda>l. (link_url l, link_text l)) ls)"
proof (induction ls arbitrary: bs w)
  case Nil
  then show ?case by simp
next
  case (Cons l ls)
  obtain bs' w' where step: "check_link l bs w = (bs', w')"
    by (cases "check_link l bs w")
  obtain ys where ys: "fst (check_loop ls bs' w') = bs' @ ys"
    "subseq (map (\<lambda>b. (b_url b, b_text b)) ys) (map (\<lambda>l. (link_url l, link_text l)) ls)"
    using Cons [of bs' w'] by blast
  from check_link_broken [of l bs w] step
  consider "bs' = bs" | b where "bs' = bs @ [b]" "b_url b = link_url l" "b_text b = link_text l"
    by auto
  then show ?case
  proof cases
    case 1
    then show ?thesis
      using ys step by (auto intro: exI [of _ ys])
  next
    case 2
    then show ?thesis
      using ys step by (auto intro!: exI [of _ "b # ys"])
  qed
qed

lemma length_linksToCheck:
  "length (linksToCheck_of all) =
     length (internalLinks_of all) + min (length (externalLinks_of all)) 10"
  by (simp add: linksToCheck_of_def)

lemma length_allLinks:
  "length all = length (internalLinks_of all) + length (externalLinks_of all)"
  by (induction all) (simp_all add: internalLinks_of_def externalLinks_of_def)

text \<open>
  One turn of the loop records what the specification records for the link, as long as a
  response does not carry the status 0.
\<close>

lemma check_link_recorded:
  assumes "\<And>r. respond w (requests w) (HEAD (link_url l)) = Inr r \<Longrightarrow> 0 < status r"
  shows "check_link l bs w =
           (bs @ recorded_for l (respond w (requests w) (HEAD (link_url l))),
            w\<lparr>requests := requests w @ [HEAD (link_url l)]\<rparr>)"
proof (cases "respond w (requests w) (HEAD (link_url l))")
  case (Inl e)
  then show ?thesis
    by (simp add: check_link_def checkLinkStatus_unfold recorded_for_def)
next
  case (Inr r)
  then have "0 < status r"
    using assms by simp
  then show ?thesis
    using Inr by (simp add: check_link_def checkLinkStatus_unfold recorded_for_def)
qed

lemma check_loop_expected:
  assumes "\<And>sent u r. respond w sent (HEAD u) = Inr r \<Longrightarrow> 0 < status r"
  shows "fst (check_loop ls bs w) = bs @ expected_broken ls w"
  using assms
proof (induction ls arbitrary: bs w)
  case Nil
  then show ?case by simp
next
  case (Cons l ls)
  let ?w' = "w\<lparr>requests := requests w @ [HEAD (link_url l)]\<rparr>"
  let ?bs' = "bs @ recorded_for l (respond w (requests w) (HEAD (link_url l)))"
  have step: "check_link l bs w = (?bs', ?w')"
    by (rule check_link_recorded) (rule Cons.prems)
  have "\<And>sent u r. respond ?w' sent (HEAD u) = Inr r \<Longrightarrow> 0 < status r"
    using Cons.prems by simp
  then have "fst (check_loop ls ?bs' ?w') = ?bs' @ expected_broken ls ?w'"
    by (rule Cons.IH)
  then show ?case
    using step by simp
qed

lemma recorded_for_entries:
  "b \<in> set (recorded_for l probe) \<Longrightarrow>
     (400 \<le> b_status b \<and> b_error b = None) \<or> (b_status b = 0 \<and> b_error b \<noteq> None)"
  by (cases probe) (auto simp add: recorded_for_def split: if_splits)

lemma expected_broken_entries:
  "b \<in> set (expected_broken ls w) \<Longrightarrow>
     (400 \<le> b_status b \<and> b_error b = None) \<or> (b_status b = 0 \<and> b_error b \<noteq> None)"
proof (induction ls arbitrary: w)
  case Nil
  then show ?case by simp
next
  case (Cons l ls)
  then show ?case
    using recorded_for_entries [of b l] by auto
qed

lemma example_status_positive:
  "respond example_world sent (HEAD u) = Inr r \<Longrightarrow> 0 < status r"
  by (auto simp add: example_world_def example_net_def example_response_def split: if_splits)

text \<open>
  Claim C6. Whatever the probe does, \<open>checkLinkStatus\<close> returns a value: the status with
  no error when a response arrives, and status 0 with the failure's message when the
  probe fails at the transport layer. A turn of the loop records the link as broken
  exactly when the response has a status of 400 or more, with that status and no error,
  or the probe failed, with status 0 and the message. The broken list that \<open>analyzeLinks\<close>
  returns is the list of these records for the checked links, in order, each probe being
  answered after the requests sent before it; every entry of it has a status of 400 or
  more and no error, or status 0 and an error message. A response carries an HTTP status
  code, which is not 0.
\<close>

theorem broken_link_accounting:
  assumes "\<And>sent u r. respond w sent (HEAD u) = Inr r \<Longrightarrow> 0 < status r"
    and "new_URL L baseUrl None = Inr base"
  shows "(\<forall>r. respond w (requests w) (HEAD (link_url l)) = Inr r \<longrightarrow>
            fst (checkLinkStatus (link_url l) w) = \<lparr>ls_status = status r, ls_error = None\<rparr>
            \<and> fst (check_link l bs w) =
                (if status r \<ge> 400
                 then bs @ [\<lparr>b_url = link_url l, b_text = link_text l,
                            b_status = status r, b_error = None\<rparr>]
                 else bs))
       \<and> (\<forall>e. respond w (requests w) (HEAD (link_url l)) = Inl e \<longrightarrow>
            fst (checkLinkStatus (link_url l) w) =
              \<lparr>ls_status = 0, ls_error = Some (error_message e)\<rparr>
            \<and> fst (check_link l bs w) =
                bs @ [\<lparr>b_url = link_url l, b_text = link_text l,
                       b_status = 0, b_error = Some (error_message e)\<rparr>])
       \<and> (\<exists>res w'. analyzeLinks L h baseUrl w = (Inr res, w')
            \<and> broken res =
                expected_broken (take 20 (linksToCheck_of (allLinks_of L h baseUrl base))) w
            \<and> (\<forall>b \<in> set (broken res).
                  (400 \<le> b_status b \<and> b_error b = None)
                  \<or> (b_status b = 0 \<and> b_error b \<noteq> None)))"
proof (intro conjI)
  have here: "\<And>r. respond w (requests w) (HEAD (link_url l)) = Inr r \<Longrightarrow> 0 < status r"
    using assms(1) by simp
  show "\<forall>r. respond w (requests w) (HEAD (link_url l)) = Inr r \<longrightarrow>
            fst (checkLinkStatus (link_url l) w) = \<lparr>ls_status = status r, ls_error = None\<rparr>
            \<and> fst (check_link l bs w) =
                (if status r \<ge> 400
                 then bs @ [\<lparr>b_url = link_url l, b_text = link_text l,
                            b_status = status r, b_error = None\<rparr>]
                 else bs)"
    using check_link_recorded [where w = w and l = l and bs = bs, OF here]
    by (simp add: checkLinkStatus_unfold recorded_for_def)
  show "\<forall>e. respond w (requests w) (HEAD (link_url l)) = Inl e \<longrightarrow>
            fst (checkLinkStatus (link_url l) w) =
              \<lparr>ls_status = 0, ls_error = Some (error_message e)\<rparr>
            \<and> fst (check_link l bs w) =
                bs @ [\<lparr>b_url = link_url l, b_text = link_text l,
                       b_status = 0, b_error = Some (error_message e)\<rparr>]"
    using check_link_recorded [where w = w and l = l and bs = bs, OF here]
    by (simp add: checkLinkStatus_unfold recorded_for_def)
  let ?checked = "take 20 (linksToCheck_of (allLinks_of L h baseUrl base))"
  obtain bs' w' where loop: "check_loop ?checked [] w = (bs', w')"
    by (cases "check_loop ?checked [] w")
  have bs': "bs' = expected_broken ?checked w"
    using check_loop_expected [where w = w and ls = ?checked and bs = "[]", OF assms(1)] loop by simp
  have "analyzeLinks L h baseUrl w =
      (Inr \<lparr>total = int (length (allLinks_of L h baseUrl base)),
            internal = int (length (internalLinks_of (allLinks_of L h baseUrl base))),
            external = int (length (externalLinks_of (allLinks_of L h baseUrl base))),
            broken = bs',
            externalLinks =
              map (\<lambda>l. \<lparr>e_url = link_url l, e_text = link_text l,
                         e_nofollow = nofollow l, e_status = 200\<rparr>)
                  (externalLinks_of (allLinks_of L h baseUrl base))\<rparr>, w')"
    using assms(2) loop by (simp add: analyzeLinks_def Let_def)
  then show "\<exists>res w'. analyzeLinks L h baseUrl w = (Inr res, w')
            \<and> broken res = expected_broken ?checked w
            \<and> (\<forall>b \<in> set (broken res).
                  (400 \<le> b_status b \<and> b_error b = None)
                  \<or> (b_status b = 0 \<and> b_error b \<noteq> None))"
    using bs' expected_broken_entries [where ls = ?checked and w = w] by auto
qed

theorem broken_link_accounting_witness:
  "fst (check_link (example_link ''https://example.com/gone'') [] example_world) =
     [\<lparr>b_url = ''https://example.com/gone'', b_text = ''a link'',
       b_status = 404, b_error = None\<rparr>]
   \<and> fst (check_link (example_link ''https://example.com/slow'') [] example_world) =
     [\<lparr>b_url = ''https://example.com/slow'', b_text = ''a link'',
       b_status = 0, b_error = Some ''timeout of 5000ms exceeded''\<rparr>]
   \<and> fst (check_link (example_link ''https://example.com/about'') [] example_world) = []
   \<and> map_sum id broken
       (fst (analyzeLinks example_lib links_html ''https://example.com/links'' example_world)) =
     Inr [\<lparr>b_url = ''https://example.com/gone'', b_text = ''Gone'',
            b_status = 404, b_error = None\<rparr>,
          \<lparr>b_url = ''https://example.com/slow'', b_text = ''Slow'',
            b_status = 0, b_error = Some ''timeout of 5000ms exceeded''\<rparr>]"
proof -
  have base: "new_URL example_lib ''https://example.com/links'' None =
      Inr (example_URL ''example.com'' ''/links'')"
    by code_simp
  have expected: "expected_broken
        (take 20 (linksToCheck_of
           (allLinks_of example_lib links_html ''https://example.com/links''
              (example_URL ''example.com'' ''/links''))))
        example_world =
      [\<lparr>b_url = ''https://example.com/gone'', b_text = ''Gone'',
         b_status = 404, b_error = None\<rparr>,
       \<lparr>b_url = ''https://example.com/slow'', b_text = ''Slow'',
         b_status = 0, b_error = Some ''timeout of 5000ms exceeded''\<rparr>]"
    by code_simp
  have one: "fst (check_link (example_link ''https://example.com/gone'') [] example_world) =
     [\<lparr>b_url = ''https://example.com/gone'', b_text = ''a link'',
       b_status = 404, b_error = None\<rparr>]"
    using broken_link_accounting [where w = example_world
          and l = "example_link ''https://example.com/gone''" and bs = "[]",
        OF example_status_positive base, THEN conjunct1]
    by (simp add: example_respond example_net_def example_response_def example_link_def)
  have two: "fst (check_link (example_link ''https://example.com/slow'') [] example_world) =
     [\<lparr>b_url = ''https://example.com/slow'', b_text = ''a link'',
       b_status = 0, b_error = Some ''timeout of 5000ms exceeded''\<rparr>]"
    using broken_link_accounting [where w = example_world
          and l = "example_link ''https://example.com/slow''" and bs = "[]",
        OF example_status_positive base, THEN conjunct2, THEN conjunct1]
    by (simp add: example_respond example_net_def example_link_def error_message_def)
  have three:
    "fst (check_link (example_link ''https://example.com/about'') [] example_world) = []"
    using broken_link_accounting [where w = example_world
          and l = "example_link ''https://example.com/about''" and bs = "[]",
        OF example_status_positive base, THEN conjunct1]
    by (simp add: example_respond example_net_def example_response_def example_link_def)
  have "\<exists>res w'. analyzeLinks example_lib links_html ''https://example.com/links''
          example_world = (Inr res, w')
      \<and> broken res =
          expected_broken
            (take 20 (linksToCheck_of
               (allLinks_of example_lib links_html ''https://example.com/links''
                  (example_URL ''example.com'' ''/links''))))
            example_world
      \<and> (\<forall>b \<in> set (broken res).
            (400 \<le> b_status b \<and> b_error b = None)
            \<or> (b_status b = 0 \<and> b_error b \<noteq> None))"
    by (rule broken_link_accounting [where w = example_world and h = links_html,
          THEN conjunct2, THEN conjunct2])
      (erule example_status_positive, rule base)
  then have four: "map_sum id broken
       (fst (analyzeLinks example_lib links_html ''https://example.com/links'' example_world)) =
     Inr [\<lparr>b_url = ''https://example.com/gone'', b_text = ''Gone'',
            b_status = 404, b_error = None\<rparr>,
          \<lparr>b_url = ''https://example.com/slow'', b_text = ''Slow'',
            b_status = 0, b_error = Some ''timeout of 5000ms exceeded''\<rparr>]"
    by (auto simp add: expected)
  show ?thesis
    by (intro conjI one two three four)
qed

text \<open>
  Claim C5. With \<open>ni\<close> internal and \<open>ne\<close> external links, \<open>analyzeLinks\<close> sends its probes
  to exactly the first \<open>min (ni + min ne 10) 20\<close> links of the list made of all internal
  links followed by the first 10 external links, in that order; the broken list holds only
  links among those; the counts \<open>total\<close>, \<open>internal\<close> and \<open>external\<close> are those of all links;
  and with 30 internal and 15 external links exactly 20 probes are sent.
\<close>

theorem analyzeLinks_cap:
  assumes "new_URL L baseUrl None = Inr base"
  shows "let all = allLinks_of L h baseUrl base;
             ni = length (internalLinks_of all);
             ne = length (externalLinks_of all);
             checked = take (min (ni + min ne 10) 20) (linksToCheck_of all)
         in \<exists>res w'. analyzeLinks L h baseUrl w = (Inr res, w')
              \<and> requests w' = requests w @ map (\<lambda>l. HEAD (link_url l)) checked
              \<and> length (requests w') = length (requests w) + min (ni + min ne 10) 20
              \<and> subseq (map (\<lambda>b. (b_url b, b_text b)) (broken res))
                        (map (\<lambda>l. (link_url l, link_text l)) checked)
              \<and> total res = int (ni + ne) \<and> internal res = int ni \<and> external res = int ne
              \<and> (ni = 30 \<and> ne = 15 \<longrightarrow> length (requests w') = length (requests w) + 20)"
proof -
  define all where "all = allLinks_of L h baseUrl base"
  define n where
    "n = min (length (internalLinks_of all) + min (length (externalLinks_of all)) 10) 20"
  define checked where "checked = take n (linksToCheck_of all)"
  have take20: "take 20 (linksToCheck_of all) = checked"
    unfolding checked_def n_def using length_linksToCheck [of all]
    by (metis min.commute take_all_iff take_take order_refl)
  have len: "length checked = n"
    unfolding checked_def n_def using length_linksToCheck [of all] by simp
  obtain bs w' where loop: "check_loop checked [] w = (bs, w')"
    by (cases "check_loop checked [] w")
  have reqs: "requests w' = requests w @ map (\<lambda>l. HEAD (link_url l)) checked"
    using check_loop_requests [of checked "[]" w] loop by simp
  have sub: "subseq (map (\<lambda>b. (b_url b, b_text b)) bs)
               (map (\<lambda>l. (link_url l, link_text l)) checked)"
    using check_loop_broken [of checked "[]" w] loop by simp
  have res: "analyzeLinks L h baseUrl w =
      (Inr \<lparr>total = int (length all),
            internal = int (length (internalLinks_of all)),
            external = int (length (externalLinks_of all)),
            broken = bs,
            externalLinks =
              map (\<lambda>l. \<lparr>e_url = link_url l, e_text = link_text l,
                         e_nofollow = nofollow l, e_status = 200\<rparr>)
                  (externalLinks_of all)\<rparr>, w')"
    using assms loop take20 by (simp add: analyzeLinks_def all_def Let_def)
  have "length (requests w') = length (requests w) + n"
    using reqs len by simp
  then show ?thesis
    unfolding Let_def all_def [symmetric] n_def [symmetric] checked_def [symmetric]
    using res reqs sub length_allLinks [of all] by (auto simp add: n_def)
qed

theorem analyzeLinks_cap_witness:
  "length (internalLinks_of
     (allLinks_of example_lib blog_html ''https://example.com/blog''
        (example_URL ''example.com'' ''/blog''))) = 30
   \<and> length (externalLinks_of
     (allLinks_of example_lib blog_html ''https://example.com/blog''
        (example_URL ''example.com'' ''/blog''))) = 15
   \<and> length (requests (snd (analyzeLinks example_lib blog_html ''https://example.com/blog''
        example_world))) = 20
   \<and> map_sum id total (fst (analyzeLinks example_lib blog_html ''https://example.com/blog''
        example_world)) = Inr 45"
proof -
  have base: "new_URL example_lib ''https://example.com/blog'' None =
      Inr (example_URL ''example.com'' ''/blog'')"
    by code_simp
  have ni: "length (internalLinks_of
     (allLinks_of example_lib blog_html ''https://example.com/blog''
        (example_URL ''example.com'' ''/blog''))) = 30"
    by code_simp
  have ne: "length (externalLinks_of
     (allLinks_of example_lib blog_html ''https://example.com/blog''
        (example_URL ''example.com'' ''/blog''))) = 15"
    by code_simp
  have start: "requests example_world = []"
    by (simp add: example_world_def)
  show ?thesis
    using analyzeLinks_cap [OF base, of blog_html example_world]
    by (auto simp add: Let_def ni ne start)
qed

section \<open>extractMetaTags\<close>

lemma canonical_extractMetaTags:
  "canonical (extractMetaTags L h u) = or_null (attr (load L h sel_canonical) ''href'')"
  by (simp add: extractMetaTags_def Let_def)

lemma canonicalMatches_extractMetaTags:
  "canonicalMatches (extractMetaTags L h u) =
     (case or_null (attr (load L h sel_canonical) ''href'') of
        None \<Rightarrow> False
      | Some c \<Rightarrow> (case canonicalMatches_try L c u of Inl error \<Rightarrow> False | Inr b \<Rightarrow> b))"
  by (simp add: extractMetaTags_def Let_def)

text \<open>
  Claim C8. \<open>canonical\<close> is the href of the canonical link, or \<open>null\<close> when there is none.
  \<open>canonicalMatches\<close> is true exactly when a canonical href is present and its resolution
  against the input URL gives the same absolute URL as the resolution of the input URL
  itself. It is false when the canonical href is absent, and false, with nothing raised,
  when the canonical href cannot be resolved.
\<close>

theorem canonicalMatches_iff:
  "canonical (extractMetaTags L h u) = or_null (attr (load L h sel_canonical) ''href'')
   \<and> canonicalMatches (extractMetaTags L h u) =
       (\<exists>c cu iu. canonical (extractMetaTags L h u) = Some c
          \<and> new_URL L c (Some u) = Inr cu \<and> new_URL L u None = Inr iu \<and> href cu = href iu)
   \<and> (canonical (extractMetaTags L h u) = None \<longrightarrow> \<not> canonicalMatches (extractMetaTags L h u))
   \<and> (\<forall>c e. canonical (extractMetaTags L h u) = Some c \<and> new_URL L c (Some u) = Inl e \<longrightarrow>
         \<not> canonicalMatches (extractMetaTags L h u))"
  by (auto simp add: canonical_extractMetaTags canonicalMatches_extractMetaTags
      canonicalMatches_try_def split: option.splits sum.splits)

theorem canonicalMatches_iff_witness:
  "canonicalMatches (extractMetaTags example_lib blog_html ''https://example.com/blog'')
   \<and> canonical (extractMetaTags example_lib blog_html ''https://example.com/blog'') = Some ''/blog''
   \<and> canonical (extractMetaTags example_lib amp_html ''https://example.com/amp'') = None
   \<and> \<not> canonicalMatches (extractMetaTags example_lib amp_html ''https://example.com/amp'')
   \<and> canonical (extractMetaTags example_lib amp2_html ''https://unparsed'') = Some ''/blog''
   \<and> new_URL example_lib ''/blog'' (Some ''https://unparsed'') = Inl (Error ''Invalid URL'')
   \<and> \<not> canonicalMatches (extractMetaTags example_lib amp2_html ''https://unparsed'')"
proof -
  have c1: "canonical (extractMetaTags example_lib blog_html ''https://example.com/blog'') =
      Some ''/blog''"
    by code_simp
  have c2: "canonical (extractMetaTags example_lib amp_html ''https://example.com/amp'') = None"
    by code_simp
  have c3: "canonical (extractMetaTags example_lib amp2_html ''https://unparsed'') = Some ''/blog''"
    by code_simp
  have u1: "new_URL example_lib ''/blog'' (Some ''https://example.com/blog'') =
      Inr (example_URL ''example.com'' ''/blog'')"
    by code_simp
  have u2: "new_URL example_lib ''https://example.com/blog'' None =
      Inr (example_URL ''example.com'' ''/blog'')"
    by code_simp
  have u3: "new_URL example_lib ''/blog'' (Some ''https://unparsed'') = Inl (Error ''Invalid URL'')"
    by code_simp
  have m1: "canonicalMatches (extractMetaTags example_lib blog_html ''https://example.com/blog'')"
    using canonicalMatches_iff [of example_lib blog_html "''https://example.com/blog''",
        THEN conjunct2, THEN conjunct1]
    by (simp add: c1 u1 u2)
  have m2: "\<not> canonicalMatches (extractMetaTags example_lib amp_html ''https://example.com/amp'')"
    using canonicalMatches_iff [of example_lib amp_html "''https://example.com/amp''",
        THEN conjunct2, THEN conjunct2, THEN conjunct1]
    by (simp add: c2)
  have m3: "\<not> canonicalMatches (extractMetaTags example_lib amp2_html ''https://unparsed'')"
    using canonicalMatches_iff [of example_lib amp2_html "''https://unparsed''",
        THEN conjunct2, THEN conjunct2, THEN conjunct2]
    by (simp add: c3 u3)
  show ?thesis
    using m1 m2 m3 by (simp add: c1 c2 c3 u3)
qed

section \<open>analyzeWebsite\<close>

lemma analyzeWebsite_unfold:
  "fst (analyzeWebsite L u w) = Inr res \<longleftrightarrow> fst (analyzeWebsite_try L u w) = Inr res"
  by (simp add: analyzeWebsite_def split: prod.splits sum.splits)

text \<open>What a result of the \<^verbatim>\<open>try\<close> block says of the steps before it.\<close>

lemma analyzeWebsite_try_Inr:
  assumes "fst (analyzeWebsite_try L u w) = Inr res"
    and "n = (if startsWith u ''http'' then u else ''https://'' @ u)"
  shows "\<exists>fetched w1 L' h a g w2.
           fetchPage L n w = (Inr fetched, w1)
         \<and> extractor_input L (html fetched) = Inr (L', h)
         \<and> ampAndRegularUrl L' h n (isAmpPage L' h) w1 = (Inr (a, g), w2)
         \<and> url res = n
         \<and> isAmp res = isAmpPage L' h
         \<and> ampUrl res = or_null a
         \<and> regularUrl res = or_null g"
  using assms
  by (auto simp add: analyzeWebsite_try_def Let_def split: prod.splits sum.splits)

text \<open>The extractors query the document of the fetched value, with the same URL parser.\<close>

lemma extractor_input_document:
  assumes "extractor_input L v = Inr (L', h)"
  shows "document_of L v = Inr (load L' h) \<and> new_URL L' = new_URL L"
  using assms
  by (cases v)
    (auto simp add: extractor_input_def document_of_def with_document_def split: sum.splits)

lemma not_isl_Inr: "\<not> isl x \<Longrightarrow> \<exists>r. x = Inr r"
  by (cases x) simp_all

lemma normalizedUrl_not_Nil:
  "(if startsWith u ''http'' then u else ''https://'' @ u) \<noteq> []"
  by (auto simp add: startsWith_def)

text \<open>
  Claim C7, as amended. When the analysis returns a result for a fetched document whose
  root element carries an \<open>amp\<close> or a high voltage sign attribute, whatever amphtml link
  the document has: \<open>isAmp\<close> is true, \<open>ampUrl\<close> is the analyzed URL, and \<open>regularUrl\<close> is
  the href of the canonical link resolved against the analyzed URL when that href is
  present and not empty, and is left unresolved otherwise. The href of a URL object is
  never empty. The fetched document is the document that \<^verbatim>\<open>load\<close> makes of the fetched
  html: for an html that is a string \<open>s\<close>, it is \<open>load L s\<close>.
\<close>

theorem analyzeWebsite_amp:
  assumes "fst (analyzeWebsite L u w) = Inr res"
    and "n = (if startsWith u ''http'' then u else ''https://'' @ u)"
    and "fst (fetchPage L n w) = Inr fetched"
    and "document_of L (html fetched) = Inr doc"
    and "attr (doc sel_html) ''amp'' \<noteq> None \<or> attr (doc sel_html) bolt \<noteq> None"
    and "\<And>input base x. new_URL L input base = Inr x \<Longrightarrow> href x \<noteq> []"
  shows "isAmp res \<and> ampUrl res = Some n
    \<and> (case attr (doc sel_canonical) ''href'' of
          None \<Rightarrow> regularUrl res = None
        | Some c \<Rightarrow>
            if c = [] then regularUrl res = None
            else (\<exists>cu. new_URL L c (Some n) = Inr cu \<and> regularUrl res = Some (href cu)))"
proof -
  obtain fetched' w1 L' h a g w2 where steps:
    "fetchPage L n w = (Inr fetched', w1)"
    "extractor_input L (html fetched') = Inr (L', h)"
    "ampAndRegularUrl L' h n (isAmpPage L' h) w1 = (Inr (a, g), w2)"
    "isAmp res = isAmpPage L' h"
    "ampUrl res = or_null a" "regularUrl res = or_null g"
    using analyzeWebsite_try_Inr [of L u w res n] assms(1,2)
    by (auto simp add: analyzeWebsite_unfold)
  have same: "fetched' = fetched"
    using steps(1) assms(3) by simp
  have doc: "load L' h = doc" and parser: "new_URL L' = new_URL L"
    using extractor_input_document [OF steps(2)] assms(4) by (simp_all add: same)
  have amp: "isAmpPage L' h"
    using assms(5) by (simp add: isAmpPage_def Let_def doc)
  have n_truthy: "or_null (Some n) = Some n"
    using normalizedUrl_not_Nil [of u] assms(2) by (simp add: or_null_def truthy_def)
  have nonempty: "\<And>input base x. new_URL L' input base = Inr x \<Longrightarrow> href x \<noteq> []"
    using assms(6) by (simp add: parser)
  show ?thesis
    using steps(3-) amp n_truthy nonempty
    by (auto simp add: ampAndRegularUrl_def Let_def or_null_def truthy_def doc parser
        split: option.splits sum.splits if_splits)
qed

lemma example_href_not_Nil:
  "new_URL example_lib input base = Inr x \<Longrightarrow> href x \<noteq> []"
  by (auto simp add: example_lib_def example_new_URL_def example_URL_def split: option.splits)

theorem analyzeWebsite_amp_witness:
  "attr (load example_lib amp2_html sel_html) ''amp'' \<noteq> None
   \<and> attr (load example_lib amp2_html sel_amphtml) ''href'' = Some ''/amp2''
   \<and> map_sum id isAmp (fst (analyzeWebsite example_lib ''example.com/amp2'' example_world)) =
       Inr True
   \<and> map_sum id ampUrl (fst (analyzeWebsite example_lib ''example.com/amp2'' example_world)) =
       Inr (Some ''https://example.com/amp2'')
   \<and> map_sum id regularUrl (fst (analyzeWebsite example_lib ''example.com/amp2'' example_world)) =
       Inr (Some ''https://example.com/blog'')"
proof -
  have "\<not> isl (fst (analyzeWebsite example_lib ''example.com/amp2'' example_world))"
    by code_simp
  then have "\<exists>res. fst (analyzeWebsite example_lib ''example.com/amp2'' example_world) = Inr res"
    by (rule not_isl_Inr)
  then obtain res where res:
    "fst (analyzeWebsite example_lib ''example.com/amp2'' example_world) = Inr res" ..
  have "\<not> isl (fst (fetchPage example_lib ''https://example.com/amp2'' example_world))"
    by code_simp
  then have "\<exists>fetched.
      fst (fetchPage example_lib ''https://example.com/amp2'' example_world) = Inr fetched"
    by (rule not_isl_Inr)
  then obtain fetched where fetched:
    "fst (fetchPage example_lib ''https://example.com/amp2'' example_world) = Inr fetched" ..
  have "map_sum id html (fst (fetchPage example_lib ''https://example.com/amp2'' example_world)) =
      Inr (JString amp2_html)"
    by code_simp
  then have page: "html fetched = JString amp2_html"
    by (simp add: fetched)
  have doc: "document_of example_lib (html fetched) = Inr (load example_lib amp2_html)"
    by (simp add: page document_of_def)
  have n: "''https://example.com/amp2'' =
      (if startsWith ''example.com/amp2'' ''http'' then ''example.com/amp2''
       else ''https://'' @ ''example.com/amp2'')"
    by (simp add: startsWith_def)
  have amp: "attr (load example_lib amp2_html sel_html) ''amp'' \<noteq> None"
    by code_simp
  have amphtml: "attr (load example_lib amp2_html sel_amphtml) ''href'' = Some ''/amp2''"
    by code_simp
  have canon: "attr (load example_lib amp2_html sel_canonical) ''href'' = Some ''/blog''"
    by code_simp
  have resolved: "new_URL example_lib ''/blog'' (Some ''https://example.com/amp2'') =
      Inr (example_URL ''example.com'' ''/blog'')"
    by code_simp
  have target: "href (example_URL ''example.com'' ''/blog'') = ''https://example.com/blog''"
    by code_simp
  have amp': "attr (load example_lib amp2_html sel_html) ''amp'' \<noteq> None
      \<or> attr (load example_lib amp2_html sel_html) bolt \<noteq> None"
    using amp by simp
  have "isAmp res \<and> ampUrl res = Some ''https://example.com/amp2''
    \<and> (case attr (load example_lib amp2_html sel_canonical) ''href'' of
          None \<Rightarrow> regularUrl res = None
        | Some c \<Rightarrow>
            if c = [] then regularUrl res = None
            else (\<exists>cu. new_URL example_lib c (Some ''https://example.com/amp2'') = Inr cu
                       \<and> regularUrl res = Some (href cu)))"
    by (rule analyzeWebsite_amp [OF res n fetched doc amp']) (erule example_href_not_Nil)
  then show ?thesis
    by (simp add: amp amphtml canon resolved target res)
qed

text \<open>
  An AMP document has a canonical link, its href is empty and resolves to the address of
  the document itself, and the result leaves \<open>regularUrl\<close> unresolved.
\<close>

theorem analyzeWebsite_amp_counterexample:
  "map_sum id html (fst (fetchPage example_lib ''https://example.com/amp'' example_world)) =
     Inr (JString amp_html)
   \<and> attr (load example_lib amp_html sel_html) ''amp'' \<noteq> None
   \<and> load example_lib amp_html sel_canonical \<noteq> []
   \<and> attr (load example_lib amp_html sel_canonical) ''href'' = Some []
   \<and> new_URL example_lib [] (Some ''https://example.com/amp'') =
       Inr (example_URL ''example.com'' ''/amp'')
   \<and> map_sum id isAmp (fst (analyzeWebsite example_lib ''example.com/amp'' example_world)) =
       Inr True
   \<and> map_sum id regularUrl (fst (analyzeWebsite example_lib ''example.com/amp'' example_world)) =
       Inr None"
  by (intro conjI; code_simp)

text \<open>Every step of the analysis only adds to the requests sent.\<close>

lemma axios_requests: "requests (snd (axios v rq w)) = requests w @ [rq]"
  by (simp add: axios_def Let_def split: sum.splits)

lemma fetchPage_requests: "requests (snd (fetchPage L u w)) = requests w @ [GET u]"
  by (simp add: fetchPage_unfold)

lemma probe_patterns_requests:
  "\<exists>ys. requests (snd (probe_patterns ps w)) = requests w @ ys"
proof (induction ps arbitrary: w)
  case Nil
  then show ?case by simp
next
  case (Cons p ps)
  obtain reply w' where step: "axios any_status (HEAD p) w = (reply, w')"
    by (cases "axios any_status (HEAD p) w")
  then have w': "requests w' = requests w @ [HEAD p]"
    using axios_requests [of any_status "HEAD p" w] by simp
  obtain ys where ys: "requests (snd (probe_patterns ps w')) = requests w' @ ys"
    using Cons [of w'] by blast
  show ?case
  proof (cases reply)
    case (Inl e)
    then show ?thesis
      using step w' ys by simp
  next
    case (Inr r)
    then show ?thesis
      using step w' ys by (cases "status r = 200") simp_all
  qed
qed

lemma detectAmpUrl_requests:
  "\<exists>ys. requests (snd (detectAmpUrl L h u w)) = requests w @ ys"
proof (cases "or_null (attr (load L h sel_amphtml) ''href'')")
  case (Some a)
  then show ?thesis
    by (cases "new_URL L a (Some u)") (simp_all add: detectAmpUrl_def Let_def)
next
  case None
  show ?thesis
  proof (cases "attr (load L h sel_html) ''amp'' \<noteq> None
                \<or> attr (load L h sel_html) bolt \<noteq> None")
    case True
    then show ?thesis
      using None by (simp add: detectAmpUrl_def Let_def)
  next
    case False
    show ?thesis
    proof (cases "new_URL L u None")
      case (Inl e)
      then show ?thesis
        using None False by (simp add: detectAmpUrl_def Let_def)
    next
      case (Inr x)
      obtain found w' where probe:
        "probe_patterns [origin x @ ''/amp'' @ pathname x,
                         origin x @ pathname x @ ''/amp/'',
                         origin x @ pathname x @ ''?amp=1'',
                         origin x @ ''/amp'' @ pathname x @ search x] w = (found, w')"
        by (cases "probe_patterns [origin x @ ''/amp'' @ pathname x,
                         origin x @ pathname x @ ''/amp/'',
                         origin x @ pathname x @ ''?amp=1'',
                         origin x @ ''/amp'' @ pathname x @ search x] w")
      then obtain ys where "requests w' = requests w @ ys"
        using probe_patterns_requests
          [of "[origin x @ ''/amp'' @ pathname x,
                origin x @ pathname x @ ''/amp/'',
                origin x @ pathname x @ ''?amp=1'',
                origin x @ ''/amp'' @ pathname x @ search x]" w]
        by auto
      then show ?thesis
        using None False Inr probe by (simp add: detectAmpUrl_def Let_def del: probe_patterns.simps)
    qed
  qed
qed

lemma ampAndRegularUrl_requests:
  "\<exists>ys. requests (snd (ampAndRegularUrl L h n b w)) = requests w @ ys"
proof (cases b)
  case True
  show ?thesis
  proof (cases "or_null (attr (load L h sel_canonical) ''href'')")
    case None
    then show ?thesis
      using True by (simp add: ampAndRegularUrl_def Let_def)
  next
    case (Some c)
    then show ?thesis
      using True by (cases "new_URL L c (Some n)") (simp_all add: ampAndRegularUrl_def Let_def)
  qed
next
  case False
  obtain r w' where d: "detectAmpUrl L h n w = (r, w')"
    by (cases "detectAmpUrl L h n w")
  then obtain ys where "requests w' = requests w @ ys"
    using detectAmpUrl_requests [of L h n w] by auto
  then show ?thesis
    using False d by (cases r) (simp_all add: ampAndRegularUrl_def)
qed

lemma analyzeLinks_requests:
  "\<exists>ys. requests (snd (analyzeLinks L h u w)) = requests w @ ys"
proof (cases "new_URL L u None")
  case (Inl e)
  then show ?thesis by (simp add: analyzeLinks_def)
next
  case (Inr base)
  have "requests (snd (check_loop (take 20 (linksToCheck_of (allLinks_of L h u base))) [] w)) =
      requests w @ map (\<lambda>l. HEAD (link_url l))
                     (take 20 (linksToCheck_of (allLinks_of L h u base)))"
    by (rule check_loop_requests)
  then show ?thesis
    using Inr by (auto simp add: analyzeLinks_def Let_def split: prod.splits)
qed

lemma fetchRobotsTxt_requests:
  "\<exists>ys. requests (snd (fetchRobotsTxt L u w)) = requests w @ ys"
proof (cases "new_URL L ''/robots.txt'' (Some u)")
  case (Inl e)
  then show ?thesis by (simp add: fetchRobotsTxt_def)
next
  case (Inr robotsUrl)
  then show ?thesis
    using axios_requests [of default_status "GET (href robotsUrl)" w]
    by (auto simp add: fetchRobotsTxt_def split: prod.splits sum.splits)
qed

lemma analyzeWebsite_try_requests:
  assumes "n = (if startsWith u ''http'' then u else ''https://'' @ u)"
  shows "\<exists>ys. requests (snd (analyzeWebsite_try L u w)) = requests w @ GET n # ys"
proof -
  have unfolded: "analyzeWebsite_try L u w =
     (case fetchPage L n w of
        (Inl e, w1) \<Rightarrow> (Inl e, w1)
      | (Inr fetched, w1) \<Rightarrow>
          (case extractor_input L (html fetched) of
             Inl e \<Rightarrow> (Inl e, w1)
           | Inr (L', html') \<Rightarrow>
               (case ampAndRegularUrl L' html' n (isAmpPage L' html') w1 of
                  (Inl e, w2) \<Rightarrow> (Inl e, w2)
                | (Inr (ampUrl', regularUrl'), w2) \<Rightarrow>
                    (case analyzeLinks L' html' n w2 of
                       (Inl e, w3) \<Rightarrow> (Inl e, w3)
                     | (Inr links', w3) \<Rightarrow>
                         (case fetchRobotsTxt L' n w3 of
                            (robotsTxtContent, w4) \<Rightarrow>
                              (case robotsTxt_rules robotsTxtContent of
                                 Inl e \<Rightarrow> (Inl e, w4)
                               | Inr rules \<Rightarrow>
                                   (Inr \<lparr>url = n,
                                         an_metaTags = extractMetaTags L' html' n,
                                         an_robotsTxt =
                                           \<lparr>rt_found = truthy_js robotsTxtContent,
                                            rt_content = robotsTxtContent,
                                            rt_rules = rules\<rparr>,
                                         an_links = links',
                                         an_performance = performance fetched,
                                         isAmp = isAmpPage L' html',
                                         ampUrl = or_null ampUrl',
                                         regularUrl = or_null regularUrl'\<rparr>, w4)))))))"
    by (simp only: analyzeWebsite_try_def Let_def assms)
  obtain r1 w1 where f: "fetchPage L n w = (r1, w1)"
    by (cases "fetchPage L n w")
  then have w1: "requests w1 = requests w @ [GET n]"
    using fetchPage_requests [of L n w] by simp
  show ?thesis
  proof (cases r1)
    case (Inl e)
    then show ?thesis
      using f w1 by (simp add: unfolded)
  next
    case (Inr fetched)
    show ?thesis
    proof (cases "extractor_input L (html fetched)")
      case (Inl e)
      then show ?thesis
        using f Inr w1 by (simp add: unfolded)
    next
      case input: (Inr pair)
      obtain L' h where pair: "pair = (L', h)"
        by (cases pair)
      obtain r2 w2 where a: "ampAndRegularUrl L' h n (isAmpPage L' h) w1 = (r2, w2)"
        by (cases "ampAndRegularUrl L' h n (isAmpPage L' h) w1")
      then obtain ys2 where w2: "requests w2 = requests w1 @ ys2"
        using ampAndRegularUrl_requests [of L' h n "isAmpPage L' h" w1] by auto
      show ?thesis
      proof (cases r2)
        case (Inl e)
        then show ?thesis
          using f Inr input pair a w1 w2 by (simp add: unfolded)
      next
        case r2: (Inr urls)
        obtain a' g' where urls: "urls = (a', g')"
          by (cases urls)
        obtain r3 w3 where l: "analyzeLinks L' h n w2 = (r3, w3)"
          by (cases "analyzeLinks L' h n w2")
        then obtain ys3 where w3: "requests w3 = requests w2 @ ys3"
          using analyzeLinks_requests [of L' h n w2] by auto
        show ?thesis
        proof (cases r3)
          case (Inl e)
          then show ?thesis
            using f Inr input pair a r2 urls l w1 w2 w3 by (simp add: unfolded)
        next
          case r3: (Inr links')
          obtain c w4 where t: "fetchRobotsTxt L' n w3 = (c, w4)"
            by (cases "fetchRobotsTxt L' n w3")
          then obtain ys4 where w4: "requests w4 = requests w3 @ ys4"
            using fetchRobotsTxt_requests [of L' n w3] by auto
          show ?thesis
            using f Inr input pair a r2 urls l r3 t w1 w2 w3 w4
            by (cases "robotsTxt_rules c") (simp_all add: unfolded)
        qed
      qed
    qed
  qed
qed

text \<open>
  Claim C9. For an input that does not start with \<open>http\<close>, the analysis is the analysis of
  \<open>https://\<close> followed by the input. The first request of the analysis fetches the
  normalized URL, which is the input itself when it starts with \<open>http\<close>, and the \<open>url\<close>
  field of a returned result is the normalized URL.
\<close>

theorem analyzeWebsite_normalizes:
  "(\<not> startsWith u ''http'' \<longrightarrow> analyzeWebsite L u w = analyzeWebsite L (''https://'' @ u) w)
   \<and> (\<exists>ys. requests (snd (analyzeWebsite L u w)) =
             requests w @ GET (if startsWith u ''http'' then u else ''https://'' @ u) # ys)
   \<and> (\<forall>res. fst (analyzeWebsite L u w) = Inr res \<longrightarrow>
         url res = (if startsWith u ''http'' then u else ''https://'' @ u))"
proof (intro conjI)
  show "\<not> startsWith u ''http'' \<longrightarrow> analyzeWebsite L u w = analyzeWebsite L (''https://'' @ u) w"
    by (simp add: analyzeWebsite_def analyzeWebsite_try_def startsWith_def)
  have "snd (analyzeWebsite L u w) = snd (analyzeWebsite_try L u w)"
    by (simp add: analyzeWebsite_def split: prod.splits sum.splits)
  then show "\<exists>ys. requests (snd (analyzeWebsite L u w)) =
             requests w @ GET (if startsWith u ''http'' then u else ''https://'' @ u) # ys"
    using analyzeWebsite_try_requests [OF refl, where u = u and L = L and w = w] by simp
  show "\<forall>res. fst (analyzeWebsite L u w) = Inr res \<longrightarrow>
         url res = (if startsWith u ''http'' then u else ''https://'' @ u)"
  proof (intro allI impI)
    fix res
    assume "fst (analyzeWebsite L u w) = Inr res"
    then have "fst (analyzeWebsite_try L u w) = Inr res"
      by (simp add: analyzeWebsite_unfold)
    from analyzeWebsite_try_Inr [OF this refl]
    show "url res = (if startsWith u ''http'' then u else ''https://'' @ u)"
      by blast
  qed
qed

theorem analyzeWebsite_normalizes_witness:
  "\<not> startsWith ''example.com/amp'' ''http''
   \<and> analyzeWebsite example_lib ''example.com/amp'' example_world =
       analyzeWebsite example_lib ''https://example.com/amp'' example_world
   \<and> requests (snd (analyzeWebsite example_lib ''example.com/amp'' example_world)) =
       [GET ''https://example.com/amp'', GET ''https://example.com/robots.txt'']
   \<and> map_sum id url (fst (analyzeWebsite example_lib ''example.com/amp'' example_world)) =
       Inr ''https://example.com/amp''
   \<and> startsWith ''https://example.com/amp2'' ''http''
   \<and> map_sum id url (fst (analyzeWebsite example_lib ''https://example.com/amp2'' example_world)) =
       Inr ''https://example.com/amp2''"
proof -
  have s1: "\<not> startsWith ''example.com/amp'' ''http''"
    by code_simp
  have s2: "startsWith ''https://example.com/amp2'' ''http''"
    by code_simp
  have q: "requests (snd (analyzeWebsite example_lib ''example.com/amp'' example_world)) =
       [GET ''https://example.com/amp'', GET ''https://example.com/robots.txt'']"
    by code_simp
  have "\<not> isl (fst (analyzeWebsite example_lib ''example.com/amp'' example_world))"
    by code_simp
  then have "\<exists>res. fst (analyzeWebsite example_lib ''example.com/amp'' example_world) = Inr res"
    by (rule not_isl_Inr)
  then obtain res1 where res1:
    "fst (analyzeWebsite example_lib ''example.com/amp'' example_world) = Inr res1" ..
  have "\<not> isl (fst (analyzeWebsite example_lib ''https://example.com/amp2'' example_world))"
    by code_simp
  then have "\<exists>res.
      fst (analyzeWebsite example_lib ''https://example.com/amp2'' example_world) = Inr res"
    by (rule not_isl_Inr)
  then obtain res2 where res2:
    "fst (analyzeWebsite example_lib ''https://example.com/amp2'' example_world) = Inr res2" ..
  have same: "analyzeWebsite example_lib ''example.com/amp'' example_world =
       analyzeWebsite example_lib ''https://example.com/amp'' example_world"
    using analyzeWebsite_normalizes [of "''example.com/amp''" example_lib example_world] s1
    by simp
  have u1: "url res1 = ''https://example.com/amp''"
    using analyzeWebsite_normalizes [of "''example.com/amp''" example_lib example_world] s1 res1
    by simp
  have u2: "url res2 = ''https://example.com/amp2''"
    using analyzeWebsite_normalizes [of "''https://example.com/amp2''" example_lib example_world]
      s2 res2
    by simp
  have m1: "map_sum id url (fst (analyzeWebsite example_lib ''example.com/amp'' example_world)) =
      Inr ''https://example.com/amp''"
    by (simp add: res1 u1)
  have m2: "map_sum id url
        (fst (analyzeWebsite example_lib ''https://example.com/amp2'' example_world)) =
      Inr ''https://example.com/amp2''"
    by (simp add: res2 u2)
  show ?thesis
    by (intro conjI s1 same q m1 s2 m2)
qed

end
